theory Spec2Isabelle
  imports Main "HOL-Library.Word" "HOL-Library.AList"
begin

section \<open>Python values used by app.py\<close>

subsection \<open>Strings, bytes and dictionaries\<close>

text \<open>
  A Python \<open>str\<close> is a sequence of Unicode code points, and \<open>len\<close> counts code points.
  The PIN check of the download form (\<open>len(pin_input) == 4 and pin_input.isdigit()\<close>)
  depends on that, so a string is a list of code points here, not a list of 8-bit
  characters. \<open>ascii\<close> turns a literal of the theory into such a string.
\<close>

type_synonym pystr = "nat list"

type_synonym bytes = "8 word list"

definition ascii :: "string \<Rightarrow> pystr" where
  "ascii s = map of_char s"

text \<open>
  A \<open>dict\<close> keeps its items in insertion order: an association list whose keys are
  distinct. \<open>d[k] = v\<close> is \<open>AList.update k v d\<close> (in place when the key is there, at the
  end otherwise), \<open>d.get(k)\<close> is \<open>map_of d k\<close>, \<open>k in d\<close> is \<open>map_of d k \<noteq> None\<close>.
\<close>

type_synonym ('k, 'v) dict = "('k \<times> 'v) list"

text \<open>The exceptions that app.py can meet, as values.\<close>

datatype exn =
    OSError
  | KeyError
  | ValueError
  | JSONDecodeError
  | Exception_failed_to_save exn

text \<open>\<open>del d[k]\<close>: KeyError when the key is missing.\<close>

definition dict_del :: "'k \<Rightarrow> ('k, 'v) dict \<Rightarrow> exn + ('k, 'v) dict" where
  "dict_del k d = (if map_of d k = None then Inl KeyError else Inr (AList.delete k d))"

text \<open>
  The dictionary that \<open>json.load\<close> builds from the members of a JSON object, in the
  order of the text: a repeated key keeps its first position and its last value.
\<close>

definition dict_of_members :: "('k \<times> 'v) list \<Rightarrow> ('k, 'v) dict" where
  "dict_of_members ms = foldl (\<lambda>d (k, v). AList.update k v d) [] ms"

subsection \<open>Decimal numerals\<close>

text \<open>\<open>str(n)\<close> of a natural number, and \<open>f"{i}"\<close> of an \<open>int\<close>.\<close>

fun str_nat :: "nat \<Rightarrow> pystr" where
  "str_nat n = (if n < 10 then [48 + n] else str_nat (n div 10) @ [48 + n mod 10])"

declare str_nat.simps [simp del]

definition str_int :: "int \<Rightarrow> pystr" where
  "str_int i = (if i < 0 then 45 # str_nat (nat (- i)) else str_nat (nat i))"

text \<open>\<open>"%0kd" % n\<close>: at least \<open>k\<close> digits, padded with zeros on the left.\<close>

definition zpad :: "nat \<Rightarrow> nat \<Rightarrow> pystr" where
  "zpad k n = replicate (k - length (str_nat n)) 48 @ str_nat n"

definition ascii_digit :: "nat \<Rightarrow> bool" where
  "ascii_digit c = (48 \<le> c \<and> c \<le> 57)"

definition digits_val :: "pystr \<Rightarrow> nat" where
  "digits_val ds = foldl (\<lambda>a c. 10 * a + (c - 48)) 0 ds"

text \<open>
  The code points \<open>c\<close> with \<open>chr(c).isdigit()\<close>: those whose Unicode Numeric_Type is
  Decimal or Digit. The table of the Unicode Character Database is not part of the
  repository; the blocks listed here are the ASCII digits, the superscript and subscript
  digits, and the decimal digits of the Arabic-Indic, Extended Arabic-Indic, NKo,
  Devanagari, Bengali, Gurmukhi, Gujarati, Oriya, Tamil, Telugu, Kannada, Malayalam, Thai,
  Lao, Tibetan, Myanmar, Khmer, Mongolian and Fullwidth blocks. The rest of the database is
  left out; no theorem below speaks about a code point outside the listed blocks, except
  through \<open>ascii_digit\<close>.
\<close>

definition unicode_digit :: "nat \<Rightarrow> bool" where
  "unicode_digit c =
     (ascii_digit c \<or> c = 178 \<or> c = 179 \<or> c = 185
      \<or> (1632 \<le> c \<and> c \<le> 1641) \<or> (1776 \<le> c \<and> c \<le> 1785)
      \<or> (1984 \<le> c \<and> c \<le> 1993)
      \<or> (2406 \<le> c \<and> c \<le> 2415) \<or> (2534 \<le> c \<and> c \<le> 2543)
      \<or> (2662 \<le> c \<and> c \<le> 2671) \<or> (2790 \<le> c \<and> c \<le> 2799)
      \<or> (2918 \<le> c \<and> c \<le> 2927) \<or> (3046 \<le> c \<and> c \<le> 3055)
      \<or> (3174 \<le> c \<and> c \<le> 3183) \<or> (3302 \<le> c \<and> c \<le> 3311)
      \<or> (3430 \<le> c \<and> c \<le> 3439) \<or> (3664 \<le> c \<and> c \<le> 3673)
      \<or> (3792 \<le> c \<and> c \<le> 3801) \<or> (3872 \<le> c \<and> c \<le> 3881)
      \<or> (4160 \<le> c \<and> c \<le> 4169) \<or> (6112 \<le> c \<and> c \<le> 6121)
      \<or> (6160 \<le> c \<and> c \<le> 6169)
      \<or> c = 8304 \<or> (8308 \<le> c \<and> c \<le> 8313) \<or> (8320 \<le> c \<and> c \<le> 8329)
      \<or> (65296 \<le> c \<and> c \<le> 65305))"

text \<open>\<open>s.isdigit()\<close>: every character is a digit and there is at least one.\<close>

definition isdigit :: "pystr \<Rightarrow> bool" where
  "isdigit s = (s \<noteq> [] \<and> list_all unicode_digit s)"

subsection \<open>Naive datetimes\<close>

text \<open>
  \<open>datetime.now()\<close> gives a naive \<open>datetime\<close>: the seven fields below, always within
  the ranges of \<open>valid_datetime\<close> (the constructor refuses anything else). The \<open>fold\<close>
  attribute is left out: comparison and subtraction of naive datetimes ignore it.
\<close>

record datetime =
  year :: nat
  month :: nat
  day :: nat
  hour :: nat
  minute :: nat
  second :: nat
  microsecond :: nat

definition is_leap :: "nat \<Rightarrow> bool" where
  "is_leap y = (y mod 4 = 0 \<and> (y mod 100 \<noteq> 0 \<or> y mod 400 = 0))"

definition days_in_month :: "nat \<Rightarrow> nat \<Rightarrow> nat" where
  "days_in_month y m =
     (if m = 2 then (if is_leap y then 29 else 28)
      else if m = 4 \<or> m = 6 \<or> m = 9 \<or> m = 11 then 30 else 31)"

definition valid_datetime :: "datetime \<Rightarrow> bool" where
  "valid_datetime d =
     (1 \<le> year d \<and> year d \<le> 9999 \<and> 1 \<le> month d \<and> month d \<le> 12 \<and>
      1 \<le> day d \<and> day d \<le> days_in_month (year d) (month d) \<and>
      hour d < 24 \<and> minute d < 60 \<and> second d < 60 \<and> microsecond d < 1000000)"

definition days_before_year :: "nat \<Rightarrow> nat" where
  "days_before_year y =
     (y - 1) * 365 + (y - 1) div 4 - (y - 1) div 100 + (y - 1) div 400"

definition days_before_month :: "nat \<Rightarrow> nat \<Rightarrow> nat" where
  "days_before_month y m = sum_list (map (days_in_month y) [1..<m])"

definition toordinal :: "datetime \<Rightarrow> nat" where
  "toordinal d = days_before_year (year d) + days_before_month (year d) (month d) + day d"

text \<open>
  A \<open>timedelta\<close> is an exact number of microseconds. \<open>a - b\<close> on datetimes is the
  difference of their positions on the proleptic Gregorian time line.
\<close>

type_synonym timedelta = int

definition microseconds_of :: "datetime \<Rightarrow> nat" where
  "microseconds_of d =
     (((toordinal d * 24 + hour d) * 60 + minute d) * 60 + second d) * 1000000
       + microsecond d"

definition datetime_sub :: "datetime \<Rightarrow> datetime \<Rightarrow> timedelta" where
  "datetime_sub a b = int (microseconds_of a) - int (microseconds_of b)"

definition timedelta_hours :: "int \<Rightarrow> timedelta" where
  "timedelta_hours h = h * 3600 * 1000000"

text \<open>
  \<open>d.isoformat()\<close> of a naive datetime: \<open>YYYY-MM-DDTHH:MM:SS\<close>, followed by
  \<open>.ffffff\<close> when the microsecond is not zero.
\<close>

definition isoformat :: "datetime \<Rightarrow> pystr" where
  "isoformat d =
     zpad 4 (year d) @ ascii ''-'' @ zpad 2 (month d) @ ascii ''-'' @ zpad 2 (day d) @
     ascii ''T'' @ zpad 2 (hour d) @ ascii '':'' @ zpad 2 (minute d) @ ascii '':'' @
     zpad 2 (second d) @
     (if microsecond d \<noteq> 0 then ascii ''.'' @ zpad 6 (microsecond d) else [])"

text \<open>
  \<open>datetime.fromisoformat(s)\<close>, read from left to right. \<open>take_digits k\<close> reads exactly
  \<open>k\<close> ASCII digits, \<open>expect c\<close> one given character. The model accepts the two layouts
  that \<open>isoformat\<close> writes for a naive datetime and raises ValueError (\<open>None\<close>) on every
  other string. CPython accepts further layouts (a date alone, reduced precision, a UTC
  offset), which app.py never writes.
\<close>

definition take_digits :: "nat \<Rightarrow> pystr \<Rightarrow> (nat \<times> pystr) option" where
  "take_digits k s =
     (if k \<le> length s \<and> list_all ascii_digit (take k s)
      then Some (digits_val (take k s), drop k s) else None)"

definition expect :: "nat \<Rightarrow> pystr \<Rightarrow> pystr option" where
  "expect c s = (case s of [] \<Rightarrow> None | x # xs \<Rightarrow> if x = c then Some xs else None)"

definition parse_fraction :: "pystr \<Rightarrow> nat option" where
  "parse_fraction s =
     (if s = [] then Some 0
      else case expect 46 s of
        None \<Rightarrow> None
      | Some s1 \<Rightarrow>
         (case take_digits 6 s1 of
            None \<Rightarrow> None
          | Some (us, rest) \<Rightarrow> if rest = [] then Some us else None))"

definition fromisoformat :: "pystr \<Rightarrow> datetime option" where
  "fromisoformat s =
     Option.bind (take_digits 4 s) (\<lambda>(y, s1).
     Option.bind (expect 45 s1) (\<lambda>s2.
     Option.bind (take_digits 2 s2) (\<lambda>(mo, s3).
     Option.bind (expect 45 s3) (\<lambda>s4.
     Option.bind (take_digits 2 s4) (\<lambda>(dd, s5).
     Option.bind (expect 84 s5) (\<lambda>s6.
     Option.bind (take_digits 2 s6) (\<lambda>(hh, s7).
     Option.bind (expect 58 s7) (\<lambda>s8.
     Option.bind (take_digits 2 s8) (\<lambda>(mi, s9).
     Option.bind (expect 58 s9) (\<lambda>s10.
     Option.bind (take_digits 2 s10) (\<lambda>(ss, s11).
     Option.bind (parse_fraction s11) (\<lambda>us.
       (let d = \<lparr>year = y, month = mo, day = dd, hour = hh, minute = mi,
                  second = ss, microsecond = us\<rparr>
        in if valid_datetime d then Some d else None)))))))))))))"

section \<open>The world of app.py\<close>

subsection \<open>Records of the metadata table\<close>

text \<open>
  What the upload form hands over for one file (Streamlit's \<open>UploadedFile\<close>): its name,
  its bytes (\<open>getvalue()\<close>), its size and its MIME type, which may be \<open>None\<close>.
\<close>

record uploaded_file =
  name :: pystr
  getvalue :: bytes
  size_u :: int
  type_u :: "pystr option"

text \<open>
  One value of the metadata dictionary, with the keys of the source (\<open>size\<close> and
  \<open>type\<close> carry a suffix). In memory \<open>upload_time\<close> is a \<open>datetime\<close>, in the JSON
  snapshot it is the ISO string; \<open>'t\<close> is that type. The tests
  \<open>isinstance(info['upload_time'], str)\<close> of \<open>load_file_metadata\<close> and
  \<open>isinstance(..., datetime)\<close> of \<open>save_file_metadata\<close> are decided by this typing:
  the first holds of every value read from the snapshot, the second of every value in
  memory.
\<close>

record 't file_info =
  filename :: pystr
  filepath :: pystr
  size_f :: int
  upload_time :: 't
  type_f :: "pystr option"

type_synonym metadata = "(pystr, datetime file_info) dict"

text \<open>The members of the JSON object of the snapshot, in the order of the text.\<close>

type_synonym snapshot = "(pystr \<times> pystr file_info) list"

subsection \<open>Files, faults, screen\<close>

text \<open>
  A file holds either bytes written through \<open>open(path, 'wb')\<close> or a JSON document
  written by \<open>json.dump\<close>. The text layout of a document is the \<open>json\<close> module's
  business: the model keeps the document and lets \<open>json.load\<close> return it. Where a file
  of one kind is read as the other, the codec of the environment (\<open>json_encode\<close>,
  \<open>json_decode\<close>) says what comes out; a snapshot that is no JSON of the expected shape is
  a \<open>Binary\<close> file that \<open>json_decode\<close> refuses.
\<close>

datatype content = Binary bytes | Json snapshot

text \<open>
  What opening a path for writing does: it works, or \<open>open\<close> raises OSError and the
  file stays as it was (permission denied, missing directory), or the write raises OSError
  after leaving the given content behind (disk full).
\<close>

datatype wfault = Write_ok | Open_denied | Write_torn content

datatype store_call = Load | Save

text \<open>What the script renders: one constructor for each \<open>st.\<close> call that matters.\<close>

datatype ui =
    St_error_loading_metadata exn
  | St_error_saving_metadata exn
  | St_error_during_cleanup exn
  | St_success_pin_verified
  | St_metrics "datetime file_info"
  | St_download_button bytes pystr "pystr option"
  | St_error_reading_file exn
  | St_info_corrupted
  | St_error_not_on_disk
  | St_info_moved_or_deleted
  | St_error_invalid_or_expired
  | St_info_check_pin
  | St_warning_valid_pin

text \<open>
  Everything outside the script: the temporary directory of the host, the files, the
  faults of the file system, the JSON codec, the raw outputs that the \<open>random\<close> module
  will deliver, the screen, and \<open>store_calls\<close>, a ghost log of the calls of
  \<open>load_file_metadata\<close> and \<open>save_file_metadata\<close> (a read leaves no other mark).
\<close>

record world =
  tempdir :: pystr
  files :: "pystr \<Rightarrow> content option"
  write_fault :: "pystr \<Rightarrow> wfault"
  read_fault :: "pystr \<Rightarrow> bool"
  remove_fault :: "pystr \<Rightarrow> bool"
  json_encode :: "snapshot \<Rightarrow> bytes"
  json_decode :: "bytes \<Rightarrow> snapshot option"
  random_state :: "nat \<Rightarrow> nat"
  screen :: "ui list"
  store_calls :: "store_call list"

text \<open>\<open>os.path.join(a, b)\<close> of posixpath.\<close>

definition path_join :: "pystr \<Rightarrow> pystr \<Rightarrow> pystr" where
  "path_join a b =
     (if b \<noteq> [] \<and> hd b = 47 then b
      else if a = [] \<or> last a = 47 then a @ b
      else a @ 47 # b)"

definition STORAGE_DIR :: "world \<Rightarrow> pystr" where
  "STORAGE_DIR w = path_join (tempdir w) (ascii ''streamlit_file_transfer'')"

definition METADATA_FILE :: "world \<Rightarrow> pystr" where
  "METADATA_FILE w = path_join (STORAGE_DIR w) (ascii ''file_metadata.json'')"

definition st :: "ui \<Rightarrow> world \<Rightarrow> world" where
  "st e w = w\<lparr>screen := screen w @ [e]\<rparr>"

definition log_call :: "store_call \<Rightarrow> world \<Rightarrow> world" where
  "log_call c w = w\<lparr>store_calls := store_calls w @ [c]\<rparr>"

text \<open>
  The disk is the map \<open>files\<close> from path strings to contents: a file is known by the
  string of its path, and two spellings of one path (\<open>/tmp/a\<close> and \<open>/tmp//a\<close>, a
  symbolic link) are two keys. The paths that app.py builds itself all come from
  \<open>os.path.join\<close> on \<open>STORAGE_DIR\<close>; a \<open>filepath\<close> read back from the snapshot
  file is whatever string the snapshot holds.
\<close>

definition os_path_exists :: "pystr \<Rightarrow> world \<Rightarrow> bool" where
  "os_path_exists p w = (files w p \<noteq> None)"

text \<open>\<open>with open(p, 'w' or 'wb') as f: \<dots>\<close> writing the content \<open>c\<close>.\<close>

definition open_write :: "pystr \<Rightarrow> content \<Rightarrow> world \<Rightarrow> (exn + unit) \<times> world" where
  "open_write p c w =
     (case write_fault w p of
        Write_ok \<Rightarrow> (Inr (), w\<lparr>files := (files w)(p \<mapsto> c)\<rparr>)
      | Open_denied \<Rightarrow> (Inl OSError, w)
      | Write_torn c' \<Rightarrow> (Inl OSError, w\<lparr>files := (files w)(p \<mapsto> c')\<rparr>))"

text \<open>\<open>with open(p, 'rb') as file: file.read()\<close>.\<close>

definition read_file :: "pystr \<Rightarrow> world \<Rightarrow> exn + bytes" where
  "read_file p w =
     (case files w p of
        None \<Rightarrow> Inl OSError
      | Some c \<Rightarrow>
          if read_fault w p then Inl OSError
          else Inr (case c of Binary bs \<Rightarrow> bs | Json ms \<Rightarrow> json_encode w ms))"

text \<open>\<open>os.remove(p)\<close>: OSError when the file is missing or may not be removed.\<close>

definition os_remove :: "pystr \<Rightarrow> world \<Rightarrow> (exn + unit) \<times> world" where
  "os_remove p w =
     (if files w p = None \<or> remove_fault w p then (Inl OSError, w)
      else (Inr (), w\<lparr>files := (files w)(p := None)\<rparr>))"

section \<open>The functions of app.py\<close>

subsection \<open>load_file_metadata and save_file_metadata\<close>

definition json_load :: "world \<Rightarrow> content \<Rightarrow> exn + snapshot" where
  "json_load w c =
     (case c of
        Json ms \<Rightarrow> Inr ms
      | Binary bs \<Rightarrow>
          (case json_decode w bs of None \<Rightarrow> Inl JSONDecodeError | Some ms \<Rightarrow> Inr ms))"

text \<open>\<open>info['upload_time'] = datetime.fromisoformat(info['upload_time'])\<close>.\<close>

definition parse_info :: "pystr file_info \<Rightarrow> exn + datetime file_info" where
  "parse_info info =
     (case fromisoformat (upload_time info) of
        None \<Rightarrow> Inl ValueError
      | Some t \<Rightarrow>
          Inr \<lparr>filename = filename info, filepath = filepath info, size_f = size_f info,
               upload_time = t, type_f = type_f info\<rparr>)"

text \<open>The loop over \<open>data.items()\<close>; the first string that does not parse ends it.\<close>

fun parse_items :: "(pystr, pystr file_info) dict \<Rightarrow> exn + metadata" where
  "parse_items [] = Inr []"
| "parse_items ((pin, info) # rest) =
     (case parse_info info of
        Inl e \<Rightarrow> Inl e
      | Inr i \<Rightarrow> (case parse_items rest of Inl e \<Rightarrow> Inl e | Inr r \<Rightarrow> Inr ((pin, i) # r)))"

text \<open>The body of the \<open>try\<close> of \<open>load_file_metadata\<close>.\<close>

definition read_metadata :: "world \<Rightarrow> exn + metadata" where
  "read_metadata w =
     (case files w (METADATA_FILE w) of
        None \<Rightarrow> Inr []
      | Some c \<Rightarrow>
          if read_fault w (METADATA_FILE w) then Inl OSError
          else (case json_load w c of
                  Inl e \<Rightarrow> Inl e
                | Inr ms \<Rightarrow> parse_items (dict_of_members ms)))"

definition load_file_metadata :: "world \<Rightarrow> metadata \<times> world" where
  "load_file_metadata w0 =
     (let w = log_call Load w0 in
      case read_metadata w of
        Inl e \<Rightarrow> ([], st (St_error_loading_metadata e) w)
      | Inr data \<Rightarrow> (data, w))"

definition serialize_info :: "datetime file_info \<Rightarrow> pystr file_info" where
  "serialize_info info =
     \<lparr>filename = filename info, filepath = filepath info, size_f = size_f info,
      upload_time = isoformat (upload_time info), type_f = type_f info\<rparr>"

text \<open>
  \<open>save_file_metadata\<close> returns nothing, also when the write fails: the \<open>except\<close> clause
  renders the error and the function ends. The lock is held for the whole body; in a
  run of one thread it is always free.
\<close>

definition save_file_metadata :: "metadata \<Rightarrow> world \<Rightarrow> world" where
  "save_file_metadata metadata w0 =
     (let w = log_call Save w0;
          serializable_data =
            dict_of_members (map (\<lambda>(pin, info). (pin, serialize_info info)) metadata)
      in case open_write (METADATA_FILE w) (Json serializable_data) w of
           (Inl e, w1) \<Rightarrow> st (St_error_saving_metadata e) w1
         | (Inr u, w1) \<Rightarrow> w1)"

subsection \<open>generate_pin\<close>

text \<open>\<open>random.randint(a, b)\<close>, computed from the next raw output \<open>r\<close> of the generator.\<close>

definition randint :: "int \<Rightarrow> int \<Rightarrow> nat \<Rightarrow> int" where
  "randint a b r = a + int (r mod nat (b - a + 1))"

text \<open>
  The \<open>while True\<close> loop, drawing the raw outputs \<open>rnd i\<close>, \<open>rnd (i + 1)\<close>, \<dots>; it
  returns the PIN with the index of the next unused output, and \<open>None\<close> stands for a loop
  that never ends.
\<close>

partial_function (option) generate_pin_loop ::
  "metadata \<Rightarrow> (nat \<Rightarrow> nat) \<Rightarrow> nat \<Rightarrow> (pystr \<times> nat) option" where
  "generate_pin_loop metadata rnd i =
     (let pin = str_int (randint 1000 9999 (rnd i)) in
      if map_of metadata pin = None then Some (pin, Suc i)
      else generate_pin_loop metadata rnd (Suc i))"

definition generate_pin :: "world \<Rightarrow> (pystr \<times> world) option" where
  "generate_pin w =
     (case load_file_metadata w of
        (metadata, w1) \<Rightarrow>
          (case generate_pin_loop metadata (random_state w1) 0 of
             None \<Rightarrow> None
           | Some (pin, k) \<Rightarrow>
               Some (pin, w1\<lparr>random_state := (\<lambda>j. random_state w1 (j + k))\<rparr>)))"

subsection \<open>save_file_with_pin and get_file_by_pin\<close>

text \<open>\<open>now\<close> is what \<open>datetime.now()\<close> returns in this call.\<close>

definition save_file_with_pin ::
  "uploaded_file \<Rightarrow> pystr \<Rightarrow> datetime \<Rightarrow> world \<Rightarrow> (exn + pystr) \<times> world" where
  "save_file_with_pin uploaded_file pin now w =
     (let file_path = path_join (STORAGE_DIR w) (pin @ ascii ''_'' @ name uploaded_file) in
      case open_write file_path (Binary (getvalue uploaded_file)) w of
        (Inl e, w1) \<Rightarrow> (Inl (Exception_failed_to_save e), w1)
      | (Inr u, w1) \<Rightarrow>
          (case load_file_metadata w1 of
             (metadata, w2) \<Rightarrow>
               (let metadata' =
                      AList.update pin
                        \<lparr>filename = name uploaded_file, filepath = file_path,
                         size_f = size_u uploaded_file, upload_time = now,
                         type_f = type_u uploaded_file\<rparr> metadata
                in (Inr file_path, save_file_metadata metadata' w2))))"

definition get_file_by_pin :: "pystr \<Rightarrow> world \<Rightarrow> datetime file_info option \<times> world" where
  "get_file_by_pin pin w =
     (case load_file_metadata w of (metadata, w1) \<Rightarrow> (map_of metadata pin, w1))"

subsection \<open>cleanup_old_files\<close>

definition expired :: "datetime \<Rightarrow> datetime file_info \<Rightarrow> bool" where
  "expired current_time file_info =
     (datetime_sub current_time (upload_time file_info) > timedelta_hours 24)"

text \<open>
  \<open>if os.path.exists(p): try: os.remove(p) except OSError: pass\<close>: the world after it.
\<close>

definition remove_if_exists :: "pystr \<Rightarrow> world \<Rightarrow> world" where
  "remove_if_exists p w =
     (if os_path_exists p w then
        (case os_remove p w of (Inl e, w1) \<Rightarrow> w1 | (Inr u, w1) \<Rightarrow> w1)
      else w)"

text \<open>The first loop, over \<open>metadata.items()\<close>, collecting \<open>pins_to_remove\<close>.\<close>

fun cleanup_scan ::
  "datetime \<Rightarrow> metadata \<Rightarrow> pystr list \<Rightarrow> world \<Rightarrow> pystr list \<times> world" where
  "cleanup_scan current_time [] pins_to_remove w = (pins_to_remove, w)"
| "cleanup_scan current_time ((pin, file_info) # rest) pins_to_remove w =
     (if expired current_time file_info
      then cleanup_scan current_time rest (pins_to_remove @ [pin])
             (remove_if_exists (filepath file_info) w)
      else cleanup_scan current_time rest pins_to_remove w)"

text \<open>The second loop: \<open>del metadata[pin]\<close> for every collected PIN.\<close>

fun del_all :: "pystr list \<Rightarrow> metadata \<Rightarrow> exn + metadata" where
  "del_all [] metadata = Inr metadata"
| "del_all (pin # pins) metadata =
     (case dict_del pin metadata of
        Inl e \<Rightarrow> Inl e
      | Inr metadata' \<Rightarrow> del_all pins metadata')"

text \<open>\<open>now\<close> is what \<open>datetime.now()\<close> returns in this call; the result is the count.\<close>

definition cleanup_old_files :: "datetime \<Rightarrow> world \<Rightarrow> nat \<times> world" where
  "cleanup_old_files now w =
     (case load_file_metadata w of
        (metadata, w1) \<Rightarrow>
          (case cleanup_scan now metadata [] w1 of
             (pins_to_remove, w2) \<Rightarrow>
               (case del_all pins_to_remove metadata of
                  Inl e \<Rightarrow> (0, st (St_error_during_cleanup e) w2)
                | Inr metadata' \<Rightarrow>
                    (length pins_to_remove,
                     if pins_to_remove \<noteq> [] then save_file_metadata metadata' w2 else w2))))"

subsection \<open>The download form (tab2)\<close>

text \<open>
  One run of the form with the text \<open>pin_input\<close> in the PIN field. The field is
  \<open>st.text_input(..., max_chars=4)\<close>: the text it hands to the form has at most four
  characters, which is a hypothesis of the statements about what a user can type. The four
  \<open>st.metric\<close> calls are one event; their texts are not modelled.
\<close>

definition download_tab :: "pystr \<Rightarrow> world \<Rightarrow> world" where
  "download_tab pin_input w =
     (if pin_input \<noteq> [] then
        (if length pin_input = 4 \<and> isdigit pin_input then
           (case get_file_by_pin pin_input w of
              (Some file_info, w1) \<Rightarrow>
                (if os_path_exists (filepath file_info) w1 then
                   (let w2 = st (St_metrics file_info) (st St_success_pin_verified w1) in
                    case read_file (filepath file_info) w2 of
                      Inr file_data \<Rightarrow>
                        st (St_download_button file_data (filename file_info)
                              (type_f file_info)) w2
                    | Inl e \<Rightarrow> st St_info_corrupted (st (St_error_reading_file e) w2))
                 else
                   (let w2 = st St_info_moved_or_deleted (st St_error_not_on_disk w1) in
                    case load_file_metadata w2 of
                      (metadata, w3) \<Rightarrow>
                        (if map_of metadata pin_input \<noteq> None
                         then save_file_metadata (AList.delete pin_input metadata) w3
                         else w3)))
            | (None, w1) \<Rightarrow> st St_info_check_pin (st St_error_invalid_or_expired w1))
         else (if pin_input \<noteq> [] then st St_warning_valid_pin w else w))
      else w)"

subsection \<open>The upload form (tab1)\<close>

text \<open>
  The body of the loop over the uploaded files: \<open>generate_pin()\<close>, then
  \<open>save_file_with_pin(file, pin)\<close>; an exception puts the file on the list of failed
  uploads. \<open>None\<close>: \<open>generate_pin\<close> never returns.
\<close>

datatype upload_result = Uploaded pystr | Failed exn

definition upload_one ::
  "uploaded_file \<Rightarrow> datetime \<Rightarrow> world \<Rightarrow> (upload_result \<times> world) option" where
  "upload_one file now w =
     (case generate_pin w of
        None \<Rightarrow> None
      | Some (pin, w1) \<Rightarrow>
          (case save_file_with_pin file pin now w1 of
             (Inl e, w2) \<Rightarrow> Some (Failed e, w2)
           | (Inr file_path, w2) \<Rightarrow> Some (Uploaded pin, w2)))"

text \<open>The loop itself; each file comes with the clock reading of its save.\<close>

fun upload_all ::
  "(uploaded_file \<times> datetime) list \<Rightarrow> world \<Rightarrow> (upload_result list \<times> world) option" where
  "upload_all [] w = Some ([], w)"
| "upload_all ((file, now) # rest) w =
     (case upload_one file now w of
        None \<Rightarrow> None
      | Some (r, w1) \<Rightarrow>
          (case upload_all rest w1 of
             None \<Rightarrow> None
           | Some (rs, w2) \<Rightarrow> Some (r # rs, w2)))"

subsection \<open>Several sessions at once\<close>

text \<open>
  Streamlit runs the script of every session in a thread of
  its own; the threads share the files and the \<open>random\<close> module. A session that uploads
  one file calls \<open>generate_pin()\<close> and then \<open>save_file_with_pin(file, pin)\<close>, and
  \<open>file_lock\<close> is held only inside \<open>save_file_metadata\<close>, so another thread may run
  between the two calls. Each call is one step here: fewer interleavings than the threads
  really have, so every run of this model is a run of the program.
\<close>

datatype handler =
    Ready uploaded_file datetime
  | Allocated uploaded_file datetime pystr
  | Done upload_result

text \<open>The next call of handler \<open>i\<close>; \<open>None\<close> when \<open>generate_pin\<close> never returns.\<close>

definition step :: "nat \<Rightarrow> world \<times> handler list \<Rightarrow> (world \<times> handler list) option" where
  "step i s =
     (case s of (w, hs) \<Rightarrow>
        if i < length hs then
          (case hs ! i of
             Ready file now \<Rightarrow>
               (case generate_pin w of
                  None \<Rightarrow> None
                | Some (pin, w1) \<Rightarrow> Some (w1, hs[i := Allocated file now pin]))
           | Allocated file now pin \<Rightarrow>
               (case save_file_with_pin file pin now w of
                  (Inl e, w1) \<Rightarrow> Some (w1, hs[i := Done (Failed e)])
                | (Inr file_path, w1) \<Rightarrow> Some (w1, hs[i := Done (Uploaded pin)]))
           | Done r \<Rightarrow> Some (w, hs))
        else Some (w, hs))"

text \<open>A schedule names the handler that makes its next call, again and again.\<close>

fun run :: "nat list \<Rightarrow> world \<times> handler list \<Rightarrow> (world \<times> handler list) option" where
  "run [] s = Some s"
| "run (i # schedule) s = (case step i s of None \<Rightarrow> None | Some s1 \<Rightarrow> run schedule s1)"

section \<open>Notions used in the statements\<close>

text \<open>
  What every Python value of the table's type satisfies: the keys of a \<open>dict\<close> are
  distinct, and every \<open>datetime\<close> is within the ranges of its fields.
\<close>

definition table_ok :: "metadata \<Rightarrow> bool" where
  "table_ok metadata =
     (distinct (map fst metadata) \<and>
      list_all (\<lambda>(pin, info). valid_datetime (upload_time info)) metadata)"

text \<open>The PIN that \<open>generate_pin\<close> forms from the raw output \<open>r\<close>.\<close>

definition candidate :: "nat \<Rightarrow> pystr" where
  "candidate r = str_int (randint 1000 9999 r)"

text \<open>
  The age of a record at the clock reading \<open>now\<close>, and the two halves into which the
  24-hour retention window splits a table: the records whose age exceeds it, and the rest.
\<close>

definition age :: "datetime \<Rightarrow> datetime file_info \<Rightarrow> timedelta" where
  "age now info = datetime_sub now (upload_time info)"

definition expired_items :: "datetime \<Rightarrow> metadata \<Rightarrow> metadata" where
  "expired_items now metadata =
     filter (\<lambda>(pin, info). timedelta_hours 24 < age now info) metadata"

definition live_items :: "datetime \<Rightarrow> metadata \<Rightarrow> metadata" where
  "live_items now metadata =
     filter (\<lambda>(pin, info). \<not> timedelta_hours 24 < age now info) metadata"

text \<open>The world after \<open>os.remove\<close> went through the paths \<open>ps\<close>, skipping those it may not remove.\<close>

definition remove_paths :: "pystr list \<Rightarrow> world \<Rightarrow> world" where
  "remove_paths ps w =
     w\<lparr>files := (\<lambda>p. if p \<in> set ps \<and> \<not> remove_fault w p then None else files w p)\<rparr>"

text \<open>
  Two worlds with the same environment: the same temporary directory, faults and codec.
  No function of app.py changes the environment.
\<close>

definition same_env :: "world \<Rightarrow> world \<Rightarrow> bool" where
  "same_env w w' =
     (tempdir w' = tempdir w \<and> write_fault w' = write_fault w \<and>
      read_fault w' = read_fault w \<and> remove_fault w' = remove_fault w \<and>
      json_encode w' = json_encode w \<and> json_decode w' = json_decode w)"

text \<open>The PINs of the uploads that succeeded, in order.\<close>

fun uploaded_pins :: "upload_result list \<Rightarrow> pystr list" where
  "uploaded_pins [] = []"
| "uploaded_pins (Uploaded pin # rs) = pin # uploaded_pins rs"
| "uploaded_pins (Failed e # rs) = uploaded_pins rs"

section \<open>Example data\<close>

text \<open>
  A clock reading, a world with an empty store and no faults whose random source delivers
  0, 1, 2, \<dots>, and a table of one record.
\<close>

definition example_time :: datetime where
  "example_time = \<lparr>year = 2024, month = 3, day = 1, hour = 11, minute = 0, second = 5,
                     microsecond = 250\<rparr>"

definition example_world :: world where
  "example_world =
     \<lparr>tempdir = ascii ''/tmp'', files = Map.empty, write_fault = (\<lambda>p. Write_ok),
      read_fault = (\<lambda>p. False), remove_fault = (\<lambda>p. False),
      json_encode = (\<lambda>ms. []), json_decode = (\<lambda>bs. None),
      random_state = (\<lambda>i. i), screen = [], store_calls = []\<rparr>"

definition example_info :: "datetime file_info" where
  "example_info =
     \<lparr>filename = ascii ''report.pdf'',
      filepath = ascii ''/tmp/streamlit_file_transfer/4821_report.pdf'',
      size_f = 1024, upload_time = example_time,
      type_f = Some (ascii ''application/pdf'')\<rparr>"

definition example_table :: metadata where
  "example_table = [(ascii ''4821'', example_info)]"

text \<open>Two uploaded files.\<close>

definition example_file :: uploaded_file where
  "example_file =
     \<lparr>name = ascii ''report.pdf'', getvalue = [37, 80, 68, 70], size_u = 4,
      type_u = Some (ascii ''application/pdf'')\<rparr>"

definition second_file :: uploaded_file where
  "second_file =
     \<lparr>name = ascii ''notes.txt'', getvalue = [104, 105], size_u = 2,
      type_u = Some (ascii ''text/plain'')\<rparr>"

text \<open>
  A table that holds every PIN from 1000 to 9999, and one that holds every string of four
  digits; the worlds whose snapshot they are.
\<close>

definition full_table :: metadata where
  "full_table = map (\<lambda>n. (str_nat n, example_info)) [1000..<10000]"

definition full_world :: world where
  "full_world = save_file_metadata full_table example_world"

definition exhausted_table :: metadata where
  "exhausted_table = map (\<lambda>n. (zpad 4 n, example_info)) [0..<10000]"

definition exhausted_world :: world where
  "exhausted_world = save_file_metadata exhausted_table example_world"

text \<open>
  A table for the sweep: one record 25 hours old with its blob on disk, one 23 hours old,
  and one older record whose blob is already missing.
\<close>

definition sweep_now :: datetime where
  "sweep_now = \<lparr>year = 2024, month = 3, day = 2, hour = 12, minute = 0, second = 0,
                  microsecond = 0\<rparr>"

definition old_info :: "datetime file_info" where
  "old_info =
     \<lparr>filename = ascii ''old.txt'',
      filepath = ascii ''/tmp/streamlit_file_transfer/1111_old.txt'',
      size_f = 3,
      upload_time = \<lparr>year = 2024, month = 3, day = 1, hour = 11, minute = 0, second = 0,
                      microsecond = 0\<rparr>,
      type_f = Some (ascii ''text/plain'')\<rparr>"

definition recent_info :: "datetime file_info" where
  "recent_info =
     \<lparr>filename = ascii ''new.txt'',
      filepath = ascii ''/tmp/streamlit_file_transfer/2222_new.txt'',
      size_f = 1,
      upload_time = \<lparr>year = 2024, month = 3, day = 1, hour = 13, minute = 0, second = 0,
                      microsecond = 0\<rparr>,
      type_f = None\<rparr>"

definition lost_info :: "datetime file_info" where
  "lost_info =
     \<lparr>filename = ascii ''lost.txt'',
      filepath = ascii ''/tmp/streamlit_file_transfer/3333_lost.txt'',
      size_f = 7,
      upload_time = \<lparr>year = 2024, month = 2, day = 28, hour = 9, minute = 30, second = 0,
                      microsecond = 0\<rparr>,
      type_f = None\<rparr>"

definition sweep_table :: metadata where
  "sweep_table =
     [(ascii ''1111'', old_info), (ascii ''2222'', recent_info), (ascii ''3333'', lost_info)]"

definition sweep_world :: world where
  "sweep_world =
     save_file_metadata sweep_table
       (example_world\<lparr>files :=
          [filepath old_info \<mapsto> Binary [1, 2, 3], filepath recent_info \<mapsto> Binary [4]]\<rparr>)"

text \<open>
  Two clock readings one microsecond apart: at the first the record of \<open>example_table\<close>
  is exactly 24 hours old.
\<close>

definition first_reading :: datetime where
  "first_reading = \<lparr>year = 2024, month = 3, day = 2, hour = 11, minute = 0, second = 5,
                      microsecond = 250\<rparr>"

definition second_reading :: datetime where
  "second_reading = \<lparr>year = 2024, month = 3, day = 2, hour = 11, minute = 0, second = 5,
                       microsecond = 251\<rparr>"

text \<open>The world whose snapshot is \<open>example_table\<close>.\<close>

definition boundary_world :: world where
  "boundary_world = save_file_metadata example_table example_world"

text \<open>A world in which the snapshot file may not be opened for writing.\<close>

definition denied_world :: world where
  "denied_world =
     example_world\<lparr>write_fault :=
       (\<lambda>p. if p = METADATA_FILE example_world then Open_denied else Write_ok)\<rparr>"

text \<open>A random source that delivers the same raw output again and again.\<close>

definition repeat_world :: world where
  "repeat_world = example_world\<lparr>random_state := (\<lambda>i. 0)\<rparr>"

section \<open>Properties of the value layer\<close>

lemma length_str_nat_pos: "0 < length (str_nat n)"
  by (induction n rule: str_nat.induct) (subst str_nat.simps, simp)

lemma str_nat_digits: "list_all ascii_digit (str_nat n)"
proof (induction n rule: str_nat.induct)
  case (1 n)
  show ?case
  proof (cases "n < 10")
    case True
    then show ?thesis by (subst str_nat.simps) (simp add: ascii_digit_def)
  next
    case False
    have "n mod 10 < 10" by simp
    then have "ascii_digit (48 + n mod 10)" unfolding ascii_digit_def by linarith
    with False "1.IH" show ?thesis by (subst str_nat.simps) simp
  qed
qed

lemma digits_val_snoc: "digits_val (ds @ [c]) = 10 * digits_val ds + (c - 48)"
  by (simp add: digits_val_def)

lemma digits_val_str_nat: "digits_val (str_nat n) = n"
proof (induction n rule: str_nat.induct)
  case (1 n)
  show ?case
  proof (cases "n < 10")
    case True
    then show ?thesis by (subst str_nat.simps) (simp add: digits_val_def)
  next
    case False
    with "1.IH" show ?thesis
      by (subst str_nat.simps) (simp add: digits_val_snoc)
  qed
qed

lemma length_str_nat_le: "n < 10 ^ k \<Longrightarrow> 0 < k \<Longrightarrow> length (str_nat n) \<le> k"
proof (induction n arbitrary: k rule: str_nat.induct)
  case (1 n)
  show ?case
  proof (cases "n < 10")
    case True
    with "1.prems" show ?thesis by (subst str_nat.simps) simp
  next
    case False
    obtain j where k: "k = Suc j" using "1.prems"(2) by (cases k) auto
    from False "1.prems"(1) k have j0: "0 < j" by (cases j) auto
    from "1.prems"(1) k have "n div 10 < 10 ^ j"
      by (simp add: less_mult_imp_div_less mult.commute)
    from "1.IH"[OF False this j0] False k show ?thesis
      by (subst str_nat.simps) simp
  qed
qed

lemma digits_val_zeros: "digits_val (replicate j 48 @ ds) = digits_val ds"
proof -
  have "foldl (\<lambda>a c. 10 * a + (c - 48)) 0 (replicate j (48::nat)) = 0"
    by (induction j) simp_all
  then show ?thesis by (simp add: digits_val_def)
qed

lemma digits_val_zpad: "digits_val (zpad k n) = n"
  by (simp add: zpad_def digits_val_zeros digits_val_str_nat)

lemma length_zpad: "n < 10 ^ k \<Longrightarrow> 0 < k \<Longrightarrow> length (zpad k n) = k"
  using length_str_nat_le[of n k] by (simp add: zpad_def)

lemma zpad_digits: "list_all ascii_digit (zpad k n)"
proof -
  have "list_all ascii_digit (replicate j 48)" for j
    by (induction j) (simp_all add: ascii_digit_def)
  then show ?thesis by (simp add: zpad_def str_nat_digits)
qed

lemma take_digits_zpad:
  assumes "n < 10 ^ k" and "0 < k"
  shows "take_digits k (zpad k n @ rest) = Some (n, rest)"
  using length_zpad[OF assms] zpad_digits[of k n]
  by (simp add: take_digits_def digits_val_zpad)

lemma expect_Cons: "expect c (c # rest) = Some rest"
  by (simp add: expect_def)

lemma parse_fraction_Nil: "parse_fraction [] = Some 0"
  by (simp add: parse_fraction_def)

lemma parse_fraction_digits:
  assumes "us < 1000000"
  shows "parse_fraction (ascii ''.'' @ zpad 6 us) = Some us"
proof -
  have "take_digits 6 (zpad 6 us @ []) = Some (us, [])"
    using assms by (intro take_digits_zpad) simp_all
  then show ?thesis
    by (simp add: parse_fraction_def ascii_def expect_def)
qed

lemma fromisoformat_isoformat:
  assumes "valid_datetime d"
  shows "fromisoformat (isoformat d) = Some d"
proof -
  have dim: "days_in_month (year d) (month d) \<le> 31"
    by (simp add: days_in_month_def)
  from assms dim have b:
    "year d < 10 ^ 4" "month d < 10 ^ 2" "day d < 10 ^ 2" "hour d < 10 ^ 2"
    "minute d < 10 ^ 2" "second d < 10 ^ 2" "microsecond d < 1000000"
    unfolding valid_datetime_def by simp_all
  note td = take_digits_zpad[OF b(1)] take_digits_zpad[OF b(2)] take_digits_zpad[OF b(3)]
     take_digits_zpad[OF b(4)] take_digits_zpad[OF b(5)] take_digits_zpad[OF b(6)]
  have a: "ascii ''-'' = [45]" "ascii ''T'' = [84]" "ascii '':'' = [58]"
    by (simp_all add: ascii_def)
  have eq: "\<lparr>year = year d, month = month d, day = day d, hour = hour d,
      minute = minute d, second = second d, microsecond = microsecond d\<rparr> = d"
    by simp
  show ?thesis
  proof (cases "microsecond d = 0")
    case True
    with eq have eq0: "\<lparr>year = year d, month = month d, day = day d, hour = hour d,
      minute = minute d, second = second d, microsecond = 0\<rparr> = d"
      by simp
    have tdn: "take_digits 2 (zpad 2 (second d)) = Some (second d, [])"
      using take_digits_zpad[OF b(6), of "[]"] by simp
    from True assms show ?thesis
      unfolding fromisoformat_def isoformat_def a
      by (simp add: td tdn expect_Cons parse_fraction_Nil Let_def eq0)
  next
    case False
    with assms show ?thesis
      unfolding fromisoformat_def isoformat_def a
      by (simp add: td expect_Cons parse_fraction_digits[OF b(7)] Let_def eq)
  qed
qed

section \<open>Dictionaries and the snapshot\<close>

lemma update_fresh: "k \<notin> fst ` set d \<Longrightarrow> AList.update k v d = d @ [(k, v)]"
  by (induction d) auto

lemma foldl_update_distinct:
  "distinct (map fst (acc @ ms)) \<Longrightarrow>
   foldl (\<lambda>d (k, v). AList.update k v d) acc ms = acc @ ms"
proof (induction ms arbitrary: acc)
  case Nil
  then show ?case by simp
next
  case (Cons m ms)
  obtain k v where m: "m = (k, v)" by (cases m)
  from Cons.prems m have fresh: "k \<notin> fst ` set acc" by auto
  from Cons.prems m have "distinct (map fst ((acc @ [(k, v)]) @ ms))" by simp
  from Cons.IH[OF this] fresh m show ?case by (simp add: update_fresh)
qed

lemma dict_of_members_distinct:
  "distinct (map fst ms) \<Longrightarrow> dict_of_members ms = ms"
  using foldl_update_distinct[of "[]" ms] by (simp add: dict_of_members_def)

lemma distinct_dict_of_members: "distinct (map fst (dict_of_members ms))"
proof -
  have "distinct (map fst acc) \<Longrightarrow>
        distinct (map fst (foldl (\<lambda>d (k, v). AList.update k v d) acc ms))" for acc
    by (induction ms arbitrary: acc) (auto simp: distinct_update)
  from this[of "[]"] show ?thesis by (simp add: dict_of_members_def)
qed

lemma parse_info_serialize:
  "valid_datetime (upload_time info) \<Longrightarrow> parse_info (serialize_info info) = Inr info"
  by (simp add: parse_info_def serialize_info_def fromisoformat_isoformat)

lemma parse_items_serialize:
  "list_all (\<lambda>(pin, info). valid_datetime (upload_time info)) metadata \<Longrightarrow>
   parse_items (map (\<lambda>(pin, info). (pin, serialize_info info)) metadata) = Inr metadata"
  by (induction metadata) (auto simp: parse_info_serialize)

lemma fromisoformat_valid: "fromisoformat s = Some d \<Longrightarrow> valid_datetime d"
  unfolding fromisoformat_def
  by (auto simp: Let_def split: Option.bind_splits if_splits prod.splits)

lemma parse_info_valid:
  "parse_info i = Inr info \<Longrightarrow> valid_datetime (upload_time info)"
  by (auto simp: parse_info_def fromisoformat_valid split: option.splits)

lemma parse_items_valid:
  "parse_items ms = Inr metadata \<Longrightarrow>
   list_all (\<lambda>(pin, info). valid_datetime (upload_time info)) metadata \<and> map fst metadata = map fst ms"
  by (induction ms arbitrary: metadata) (auto simp: parse_info_valid split: sum.splits)

lemma METADATA_FILE_simps [simp]:
  "METADATA_FILE (w\<lparr>files := f\<rparr>) = METADATA_FILE w"
  "METADATA_FILE (w\<lparr>screen := s\<rparr>) = METADATA_FILE w"
  "METADATA_FILE (w\<lparr>store_calls := c\<rparr>) = METADATA_FILE w"
  "METADATA_FILE (w\<lparr>random_state := r\<rparr>) = METADATA_FILE w"
  by (simp_all add: METADATA_FILE_def STORAGE_DIR_def)

lemma save_ok:
  assumes "write_fault w (METADATA_FILE w) = Write_ok" and "distinct (map fst metadata)"
  shows "save_file_metadata metadata w =
     w\<lparr>store_calls := store_calls w @ [Save],
       files := (files w)(METADATA_FILE w \<mapsto>
          Json (map (\<lambda>(pin, info). (pin, serialize_info info)) metadata))\<rparr>"
proof -
  have "distinct (map fst (map (\<lambda>(pin, info). (pin, serialize_info info)) metadata))"
    using assms(2) by (simp add: comp_def case_prod_unfold)
  then show ?thesis using assms(1)
    by (simp add: save_file_metadata_def log_call_def open_write_def Let_def
        dict_of_members_distinct)
qed


lemma read_metadata_Json:
  assumes "files w (METADATA_FILE w) = Some (Json ms)" and "\<not> read_fault w (METADATA_FILE w)"
  shows "read_metadata w = parse_items (dict_of_members ms)"
  using assms by (simp add: read_metadata_def json_load_def)

lemma read_metadata_cong:
  assumes "tempdir w' = tempdir w" "files w' = files w" "read_fault w' = read_fault w"
    "json_decode w' = json_decode w"
  shows "read_metadata w' = read_metadata w"
proof -
  have m: "METADATA_FILE w' = METADATA_FILE w"
    using assms(1) by (simp add: METADATA_FILE_def STORAGE_DIR_def)
  have j: "json_load w' = json_load w"
    unfolding json_load_def assms(4) ..
  show ?thesis unfolding read_metadata_def m j assms(2,3) ..
qed

lemma fst_load: "fst (load_file_metadata w) = (case read_metadata w of Inl e \<Rightarrow> [] | Inr d \<Rightarrow> d)"
  by (simp add: load_file_metadata_def Let_def log_call_def
      read_metadata_cong[of "w\<lparr>store_calls := store_calls w @ [Load]\<rparr>" w] split: sum.splits)

lemma load_cong:
  assumes "tempdir w' = tempdir w" "files w' = files w" "read_fault w' = read_fault w"
    "json_decode w' = json_decode w"
  shows "fst (load_file_metadata w') = fst (load_file_metadata w)"
  by (simp add: fst_load read_metadata_cong[OF assms])

lemma read_metadata_ok: "read_metadata w = Inr d \<Longrightarrow> table_ok d"
  unfolding read_metadata_def table_ok_def
  by (auto simp: distinct_dict_of_members dest!: parse_items_valid split: option.splits if_splits sum.splits)

lemma load_table_ok: "table_ok (fst (load_file_metadata w))"
  by (auto simp: fst_load read_metadata_ok split: sum.splits) (simp add: table_ok_def)

lemma load_save:
  assumes "table_ok metadata"
    and "write_fault w (METADATA_FILE w) = Write_ok"
    and "\<not> read_fault w (METADATA_FILE w)"
  shows "fst (load_file_metadata (save_file_metadata metadata w)) = metadata"
proof -
  from assms(1) have d: "distinct (map fst metadata)"
    and v: "list_all (\<lambda>(pin, info). valid_datetime (upload_time info)) metadata"
    by (simp_all add: table_ok_def)
  let ?ms = "map (\<lambda>(pin, info). (pin, serialize_info info)) metadata"
  let ?w = "save_file_metadata metadata w"
  have dm: "distinct (map fst ?ms)" using d by (simp add: comp_def case_prod_unfold)
  have w': "?w = w\<lparr>store_calls := store_calls w @ [Save],
       files := (files w)(METADATA_FILE w \<mapsto> Json ?ms)\<rparr>"
    by (rule save_ok[OF assms(2) d])
  have "read_metadata ?w = parse_items (dict_of_members ?ms)"
    by (rule read_metadata_Json) (simp_all add: w' assms(3))
  also have "\<dots> = Inr metadata"
    by (simp add: dict_of_members_distinct[OF dm] parse_items_serialize[OF v])
  finally show ?thesis by (simp add: fst_load)
qed


section \<open>generate_pin\<close>

subsection \<open>The candidates and the loop\<close>

lemma str_nat_4:
  assumes "1000 \<le> n" "n \<le> 9999"
  shows "str_nat n = [48 + n div 1000, 48 + n div 100 mod 10, 48 + n div 10 mod 10, 48 + n mod 10]"
proof -
  have a: "\<not> n < 10" "\<not> n div 10 < 10" "\<not> n div 10 div 10 < 10" "n div 10 div 10 div 10 < 10"
    using assms by auto
  have d: "n div 10 div 10 = n div 100" "n div 10 div 10 div 10 = n div 1000"
    by (simp_all add: div_mult2_eq[symmetric])
  show ?thesis
    apply (subst str_nat.simps, simp only: a if_False)
    apply (subst str_nat.simps, simp only: a if_False)
    apply (subst str_nat.simps, simp only: a if_False)
    apply (subst str_nat.simps, simp only: a if_True)
    apply (simp add: d)
    done
qed

lemma candidate_eq: "candidate r = str_nat (1000 + r mod 9000)"
  by (simp add: candidate_def randint_def str_int_def nat_add_distrib)

lemma candidate_shape:
  "length (candidate r) = 4 \<and> list_all ascii_digit (candidate r) \<and> hd (candidate r) \<noteq> 48"
proof -
  let ?n = "1000 + r mod 9000"
  have b: "1000 \<le> ?n" "?n \<le> 9999" by simp_all
  have h: "1 \<le> ?n div 1000" "?n div 1000 \<le> 9" using b by auto
  have m: "k mod 10 \<le> 9" for k :: nat
  proof -
    have "k mod 10 < 10" by simp
    then show ?thesis by linarith
  qed
  have d: "ascii_digit (48 + k)" if "k \<le> 9" for k
    using that by (simp add: ascii_digit_def)
  have "list_all ascii_digit (str_nat ?n)"
    unfolding str_nat_4[OF b] using h(2) by (simp add: d m)
  moreover have "hd (str_nat ?n) \<noteq> 48" "length (str_nat ?n) = 4"
    unfolding str_nat_4[OF b] using h(1) by simp_all
  ultimately show ?thesis
    unfolding candidate_eq by simp
qed

lemma candidate_onto:
  assumes "1000 \<le> n" "n \<le> 9999"
  shows "candidate (n - 1000) = str_nat n"
  using assms by (simp add: candidate_eq)

lemma generate_pin_loop_unfold:
  "generate_pin_loop metadata rnd i =
     (if map_of metadata (candidate (rnd i)) = None then Some (candidate (rnd i), Suc i)
      else generate_pin_loop metadata rnd (Suc i))"
  by (subst generate_pin_loop.simps) (simp add: candidate_def Let_def)

lemma generate_pin_loop_Some_aux:
  assumes "generate_pin_loop metadata rnd i = Some y"
  shows "\<exists>j\<ge>i. snd y = Suc j \<and> fst y = candidate (rnd j) \<and> map_of metadata (fst y) = None \<and>
        (\<forall>l. i \<le> l \<and> l < j \<longrightarrow> map_of metadata (candidate (rnd l)) \<noteq> None)"
proof (rule generate_pin_loop.raw_induct[where P = "\<lambda>metadata rnd i y.
    \<exists>j\<ge>i. snd y = Suc j \<and> fst y = candidate (rnd j) \<and> map_of metadata (fst y) = None \<and>
        (\<forall>l. i \<le> l \<and> l < j \<longrightarrow> map_of metadata (candidate (rnd l)) \<noteq> None)",
    OF _ assms], goal_cases)
  case (1 f metadata rnd i y)
  show ?case
  proof (cases "map_of metadata (candidate (rnd i)) = None")
    case True
    with 1(2) have "y = (candidate (rnd i), Suc i)"
      by (simp add: candidate_def[symmetric] Let_def)
    with True show ?thesis by (intro exI[of _ i]) auto
  next
    case False
    with 1(2) have "f metadata rnd (Suc i) = Some y"
      by (simp add: candidate_def[symmetric] Let_def)
    from 1(1)[OF this] obtain j where j: "Suc i \<le> j" "snd y = Suc j"
      "fst y = candidate (rnd j)" "map_of metadata (fst y) = None"
      "\<forall>l. Suc i \<le> l \<and> l < j \<longrightarrow> map_of metadata (candidate (rnd l)) \<noteq> None"
      by blast
    have "\<forall>l. i \<le> l \<and> l < j \<longrightarrow> map_of metadata (candidate (rnd l)) \<noteq> None"
    proof (intro allI impI)
      fix l assume l: "i \<le> l \<and> l < j"
      show "map_of metadata (candidate (rnd l)) \<noteq> None"
      proof (cases "l = i")
        case True with False show ?thesis by simp
      next
        case False with l j(5) show ?thesis by (simp add: Suc_le_eq)
      qed
    qed
    with j show ?thesis by (intro exI[of _ j]) auto
  qed
qed

lemma generate_pin_loop_Some:
  "generate_pin_loop metadata rnd i = Some (pin, k) \<Longrightarrow>
   \<exists>j\<ge>i. k = Suc j \<and> pin = candidate (rnd j) \<and> map_of metadata pin = None \<and>
        (\<forall>l. i \<le> l \<and> l < j \<longrightarrow> map_of metadata (candidate (rnd l)) \<noteq> None)"
  using generate_pin_loop_Some_aux[of metadata rnd i "(pin, k)"] by simp

lemma generate_pin_loop_terminates:
  "map_of metadata (candidate (rnd j)) = None \<Longrightarrow> i \<le> j \<Longrightarrow>
   \<exists>pin k. generate_pin_loop metadata rnd i = Some (pin, k)"
proof (induction "j - i" arbitrary: i)
  case 0
  then have "i = j" by simp
  with 0 show ?case by (subst generate_pin_loop_unfold) simp
next
  case (Suc d)
  show ?case
  proof (cases "map_of metadata (candidate (rnd i)) = None")
    case True
    then show ?thesis by (subst generate_pin_loop_unfold) simp
  next
    case False
    from Suc have "d = j - Suc i" "Suc i \<le> j" by simp_all
    from Suc(1)[OF this(1) Suc(3) this(2)] False show ?thesis
      by (subst generate_pin_loop_unfold) simp
  qed
qed

lemma generate_pin_loop_None_iff:
  "generate_pin_loop metadata rnd i = None \<longleftrightarrow>
   (\<forall>j\<ge>i. map_of metadata (candidate (rnd j)) \<noteq> None)"
proof
  assume n: "generate_pin_loop metadata rnd i = None"
  show "\<forall>j\<ge>i. map_of metadata (candidate (rnd j)) \<noteq> None"
  proof (intro allI impI notI)
    fix j assume "i \<le> j" "map_of metadata (candidate (rnd j)) = None"
    from generate_pin_loop_terminates[of metadata rnd j i] this n show False by simp
  qed
next
  assume a: "\<forall>j\<ge>i. map_of metadata (candidate (rnd j)) \<noteq> None"
  show "generate_pin_loop metadata rnd i = None"
  proof (rule ccontr)
    assume "generate_pin_loop metadata rnd i \<noteq> None"
    then obtain pin k where "generate_pin_loop metadata rnd i = Some (pin, k)" by auto
    from generate_pin_loop_Some[OF this] a show False by auto
  qed
qed

subsection \<open>What a load returns and what it leaves alone\<close>

lemma load_file_metadata_eq:
  "load_file_metadata w =
     (case read_metadata w of
        Inl e \<Rightarrow> ([], w\<lparr>store_calls := store_calls w @ [Load],
                        screen := screen w @ [St_error_loading_metadata e]\<rparr>)
      | Inr d \<Rightarrow> (d, w\<lparr>store_calls := store_calls w @ [Load]\<rparr>))"
  by (simp add: load_file_metadata_def Let_def log_call_def st_def
      read_metadata_cong[of "w\<lparr>store_calls := store_calls w @ [Load]\<rparr>" w] split: sum.splits)

lemma load_keeps:
  "tempdir (snd (load_file_metadata w)) = tempdir w"
  "files (snd (load_file_metadata w)) = files w"
  "write_fault (snd (load_file_metadata w)) = write_fault w"
  "read_fault (snd (load_file_metadata w)) = read_fault w"
  "remove_fault (snd (load_file_metadata w)) = remove_fault w"
  "json_encode (snd (load_file_metadata w)) = json_encode w"
  "json_decode (snd (load_file_metadata w)) = json_decode w"
  "random_state (snd (load_file_metadata w)) = random_state w"
  "store_calls (snd (load_file_metadata w)) = store_calls w @ [Load]"
  by (simp_all add: load_file_metadata_eq split: sum.splits)

lemma generate_pin_eq:
  "generate_pin w =
     (case generate_pin_loop (fst (load_file_metadata w)) (random_state w) 0 of
        None \<Rightarrow> None
      | Some (pin, k) \<Rightarrow>
          Some (pin, (snd (load_file_metadata w))\<lparr>random_state := (\<lambda>j. random_state w (j + k))\<rparr>))"
proof -
  obtain metadata w1 where l: "load_file_metadata w = (metadata, w1)"
    by (cases "load_file_metadata w")
  from load_keeps(8)[of w] l have r: "random_state w1 = random_state w" by simp
  show ?thesis by (simp add: generate_pin_def l r split: option.splits)
qed

lemma generate_pin_None_iff:
  "generate_pin w = None \<longleftrightarrow>
   (\<forall>i. map_of (fst (load_file_metadata w)) (candidate (random_state w i)) \<noteq> None)"
proof -
  have "generate_pin w = None \<longleftrightarrow>
        generate_pin_loop (fst (load_file_metadata w)) (random_state w) 0 = None"
    by (simp add: generate_pin_eq split: option.splits)
  then show ?thesis by (simp add: generate_pin_loop_None_iff)
qed

lemma generate_pin_first:
  assumes "map_of (fst (load_file_metadata w)) (candidate (random_state w 0)) = None"
  shows "generate_pin w =
     Some (candidate (random_state w 0),
           (snd (load_file_metadata w))\<lparr>random_state := (\<lambda>j. random_state w (j + 1))\<rparr>)"
  using assms by (simp add: generate_pin_eq generate_pin_loop_unfold)

lemma generate_pin_Some:
  assumes "generate_pin w = Some (pin, w')"
  shows "\<exists>j. pin = candidate (random_state w j) \<and>
     map_of (fst (load_file_metadata w)) pin = None \<and>
     w' = (snd (load_file_metadata w))\<lparr>random_state := (\<lambda>i. random_state w (i + Suc j))\<rparr>"
proof -
  from assms obtain k where l: "generate_pin_loop (fst (load_file_metadata w)) (random_state w) 0 = Some (pin, k)"
    and w': "w' = (snd (load_file_metadata w))\<lparr>random_state := (\<lambda>j. random_state w (j + k))\<rparr>"
    by (auto simp: generate_pin_eq split: option.splits)
  from generate_pin_loop_Some[OF l] w' show ?thesis by auto
qed

subsection \<open>The example stores\<close>

lemma example_load: "load_file_metadata example_world = ([], example_world\<lparr>store_calls := [Load]\<rparr>)"
  by (simp add: load_file_metadata_eq read_metadata_def example_world_def)

lemma candidate_0: "candidate 0 = ascii ''1000''"
  by (simp add: candidate_eq str_nat_4 ascii_def)

lemma valid_example_time: "valid_datetime example_time"
  by (simp add: example_time_def valid_datetime_def days_in_month_def)

lemma inj_str_nat: "inj_on str_nat A"
  by (rule inj_on_inverseI[of _ digits_val]) (rule digits_val_str_nat)

lemma inj_zpad: "inj_on (zpad k) A"
  by (rule inj_on_inverseI[of _ digits_val]) (rule digits_val_zpad)

lemma table_ok_full: "table_ok full_table"
  by (simp add: table_ok_def full_table_def comp_def distinct_map inj_str_nat
      list_all_iff example_info_def valid_example_time del: upt_rec_numeral)

lemma table_ok_exhausted: "table_ok exhausted_table"
  by (simp add: table_ok_def exhausted_table_def comp_def distinct_map inj_zpad
      list_all_iff example_info_def valid_example_time del: upt_rec_numeral)

lemma example_world_faults:
  "write_fault example_world p = Write_ok" "\<not> read_fault example_world p"
  by (simp_all add: example_world_def)

lemma load_full_world: "fst (load_file_metadata full_world) = full_table"
  unfolding full_world_def by (rule load_save[OF table_ok_full example_world_faults])

lemma load_exhausted_world: "fst (load_file_metadata exhausted_world) = exhausted_table"
  unfolding exhausted_world_def by (rule load_save[OF table_ok_exhausted example_world_faults])

lemma candidate_in_full: "map_of full_table (candidate r) \<noteq> None"
proof -
  have "candidate r \<in> fst ` set full_table"
    unfolding full_table_def candidate_eq
    by (simp add: image_image del: upt_rec_numeral)
  then show ?thesis by (simp add: map_of_eq_None_iff)
qed

lemma zpad_4: "1000 \<le> n \<Longrightarrow> n \<le> 9999 \<Longrightarrow> zpad 4 n = str_nat n"
  by (simp add: zpad_def str_nat_4)

lemma candidate_in_exhausted: "map_of exhausted_table (candidate r) \<noteq> None"
proof -
  have "zpad 4 (1000 + r mod 9000) \<in> fst ` set exhausted_table"
    unfolding exhausted_table_def by (simp add: image_image del: upt_rec_numeral)
  then have "candidate r \<in> fst ` set exhausted_table"
    by (simp add: candidate_eq zpad_4)
  then show ?thesis by (simp add: map_of_eq_None_iff)
qed

section \<open>cleanup_old_files\<close>

lemma expired_age: "expired now info = (timedelta_hours 24 < age now info)"
  by (simp add: expired_def age_def)

lemma remove_if_exists_eq: "remove_if_exists p w = remove_paths [p] w"
proof -
  have e: "w\<lparr>files := f\<rparr> = w" if "f = files w" for f
    using that by simp
  show ?thesis
  proof (cases "files w p = None \<or> remove_fault w p")
    case True
    then have "(\<lambda>q. if q \<in> set [p] \<and> \<not> remove_fault w q then None else files w q) = files w"
      by (auto simp: fun_eq_iff)
    then have "remove_paths [p] w = w"
      unfolding remove_paths_def by (rule e)
    with True show ?thesis
      by (auto simp: remove_if_exists_def os_path_exists_def os_remove_def)
  next
    case False
    then have "(\<lambda>q. if q \<in> set [p] \<and> \<not> remove_fault w q then None else files w q)
        = (files w)(p := None)"
      by (auto simp: fun_eq_iff)
    then have "remove_paths [p] w = w\<lparr>files := (files w)(p := None)\<rparr>"
      unfolding remove_paths_def by simp
    with False show ?thesis
      by (auto simp: remove_if_exists_def os_path_exists_def os_remove_def)
  qed
qed

lemma remove_paths_append:
  "remove_paths qs (remove_paths ps w) = remove_paths (ps @ qs) w"
  by (auto simp: remove_paths_def fun_eq_iff intro!: arg_cong[where f="\<lambda>f. files_update f w"])

lemma remove_paths_Nil: "remove_paths [] w = w"
  by (simp add: remove_paths_def)


lemma cleanup_scan_eq:
  "cleanup_scan now metadata pins w =
     (pins @ map fst (expired_items now metadata),
      remove_paths (map (\<lambda>(pin, info). filepath info) (expired_items now metadata)) w)"
proof (induction metadata arbitrary: pins w)
  case Nil
  then show ?case by (simp add: expired_items_def remove_paths_Nil)
next
  case (Cons a metadata)
  obtain pin info where a: "a = (pin, info)" by (cases a)
  show ?case
    using Cons.IH
    by (simp add: a expired_items_def expired_age remove_if_exists_eq remove_paths_append)
qed

lemma del_all_eq:
  "distinct (map fst metadata) \<Longrightarrow> distinct pins \<Longrightarrow> set pins \<subseteq> fst ` set metadata \<Longrightarrow>
   del_all pins metadata = Inr (filter (\<lambda>(k, v). k \<notin> set pins) metadata)"
proof (induction pins arbitrary: metadata)
  case Nil
  then show ?case by simp
next
  case (Cons pin pins)
  from Cons.prems(3) have m: "map_of metadata pin \<noteq> None"
    by (simp add: map_of_eq_None_iff)
  have d: "distinct (map fst (AList.delete pin metadata))"
    using Cons.prems(1) by (rule distinct_delete)
  have s: "set pins \<subseteq> fst ` set (AList.delete pin metadata)"
  proof
    fix x assume x: "x \<in> set pins"
    with Cons.prems(3) obtain v where "(x, v) \<in> set metadata" by force
    moreover from x Cons.prems(2) have "x \<noteq> pin" by auto
    ultimately show "x \<in> fst ` set (AList.delete pin metadata)"
      by (force simp: AList.delete_eq)
  qed
  from Cons.prems(2) have dp: "distinct pins" by simp
  have f: "filter (\<lambda>(k, v). k \<notin> set pins) (AList.delete pin metadata)
         = filter (\<lambda>(k, v). k \<notin> set (pin # pins)) metadata"
    by (auto simp: AList.delete_eq intro: filter_cong)
  show ?case
    using m Cons.IH[OF d dp s] by (simp add: dict_del_def f)
qed

lemma filter_expired_keys:
  assumes "distinct (map fst metadata)"
  shows "filter (\<lambda>(k, v). k \<notin> fst ` set (expired_items now metadata)) metadata
       = live_items now metadata"
  unfolding live_items_def
proof (rule filter_cong[OF refl])
  fix x assume x: "x \<in> set metadata"
  obtain k v where kv: "x = (k, v)" by (cases x)
  have "k \<in> fst ` set (expired_items now metadata) \<longleftrightarrow> timedelta_hours 24 < age now v"
  proof
    assume "k \<in> fst ` set (expired_items now metadata)"
    then obtain v' where v': "(k, v') \<in> set metadata" "timedelta_hours 24 < age now v'"
      by (auto simp: expired_items_def)
    from assms v'(1) x kv have "v' = v" by (meson eq_key_imp_eq_value)
    with v'(2) show "timedelta_hours 24 < age now v" by simp
  next
    assume "timedelta_hours 24 < age now v"
    with x kv show "k \<in> fst ` set (expired_items now metadata)"
      by (force simp: expired_items_def)
  qed
  then show "(case x of (k, v) \<Rightarrow> k \<notin> fst ` set (expired_items now metadata))
        = (case x of (pin, info) \<Rightarrow> \<not> timedelta_hours 24 < age now info)"
    by (simp add: kv)
qed

lemma cleanup_old_files_eq:
  "cleanup_old_files now w =
     (let metadata = fst (load_file_metadata w);
          w2 = remove_paths (map (\<lambda>(pin, info). filepath info) (expired_items now metadata))
                 (snd (load_file_metadata w))
      in (length (expired_items now metadata),
          if expired_items now metadata \<noteq> []
          then save_file_metadata (live_items now metadata) w2 else w2))"
proof -
  obtain metadata w1 where l: "load_file_metadata w = (metadata, w1)"
    by (cases "load_file_metadata w")
  from load_table_ok[of w] l have d: "distinct (map fst metadata)"
    by (simp add: table_ok_def)
  have dp: "distinct (map fst (expired_items now metadata))"
    unfolding expired_items_def using d by (rule distinct_map_filter)
  have s: "set (map fst (expired_items now metadata)) \<subseteq> fst ` set metadata"
    by (auto simp: expired_items_def)
  show ?thesis
    by (simp add: cleanup_old_files_def l cleanup_scan_eq del_all_eq[OF d dp s]
        filter_expired_keys[OF d] Let_def)
qed

lemma remove_paths_keeps:
  "tempdir (remove_paths ps w) = tempdir w"
  "write_fault (remove_paths ps w) = write_fault w"
  "read_fault (remove_paths ps w) = read_fault w"
  "remove_fault (remove_paths ps w) = remove_fault w"
  "json_decode (remove_paths ps w) = json_decode w"
  "screen (remove_paths ps w) = screen w"
  "store_calls (remove_paths ps w) = store_calls w"
  "METADATA_FILE (remove_paths ps w) = METADATA_FILE w"
  "files (remove_paths ps w) p = (if p \<in> set ps \<and> \<not> remove_fault w p then None else files w p)"
  by (simp_all add: remove_paths_def)

lemma load_keeps_more:
  "METADATA_FILE (snd (load_file_metadata w)) = METADATA_FILE w"
  by (simp add: METADATA_FILE_def STORAGE_DIR_def load_keeps)

lemma save_keeps:
  "tempdir (save_file_metadata metadata w) = tempdir w"
  "write_fault (save_file_metadata metadata w) = write_fault w"
  "read_fault (save_file_metadata metadata w) = read_fault w"
  "remove_fault (save_file_metadata metadata w) = remove_fault w"
  "json_decode (save_file_metadata metadata w) = json_decode w"
  "json_encode (save_file_metadata metadata w) = json_encode w"
  "random_state (save_file_metadata metadata w) = random_state w"
  "store_calls (save_file_metadata metadata w) = store_calls w @ [Save]"
  "METADATA_FILE (save_file_metadata metadata w) = METADATA_FILE w"
  by (simp_all add: save_file_metadata_def log_call_def open_write_def st_def Let_def
      METADATA_FILE_def STORAGE_DIR_def split: wfault.splits)

lemma save_files:
  assumes "write_fault w (METADATA_FILE w) = Write_ok"
  shows "files (save_file_metadata metadata w) =
         (files w)(METADATA_FILE w \<mapsto>
            Json (dict_of_members (map (\<lambda>(pin, info). (pin, serialize_info info)) metadata)))"
    and "screen (save_file_metadata metadata w) = screen w"
  using assms
  by (simp_all add: save_file_metadata_def log_call_def open_write_def Let_def)

lemma load_nonempty_readable:
  assumes "fst (load_file_metadata w) \<noteq> []"
  shows "\<not> read_fault w (METADATA_FILE w)"
  using assms by (auto simp: fst_load read_metadata_def split: sum.splits option.splits if_splits)

lemma table_ok_filter: "table_ok metadata \<Longrightarrow> table_ok (filter P metadata)"
  by (auto simp: table_ok_def distinct_map_filter list_all_iff)

lemma table_ok_live: "table_ok metadata \<Longrightarrow> table_ok (live_items now metadata)"
  unfolding live_items_def by (rule table_ok_filter)

text \<open>The table that a load finds after the sweep.\<close>

lemma load_after_cleanup:
  assumes "write_fault w (METADATA_FILE w) = Write_ok"
  shows "fst (load_file_metadata (snd (cleanup_old_files now w)))
         = live_items now (fst (load_file_metadata w))"
proof -
  let ?md = "fst (load_file_metadata w)"
  let ?w1 = "snd (load_file_metadata w)"
  let ?ps = "map (\<lambda>(pin, info). filepath info) (expired_items now ?md)"
  let ?w2 = "remove_paths ?ps ?w1"
  show ?thesis
  proof (cases "expired_items now ?md = []")
    case True
    then have p: "?ps = []" by simp
    have l: "live_items now ?md = ?md"
      using True unfolding live_items_def expired_items_def
      by (auto simp: filter_empty_conv filter_id_conv)
    have "fst (load_file_metadata ?w1) = ?md"
      by (rule load_cong) (simp_all add: load_keeps)
    with True l show ?thesis
      by (simp add: cleanup_old_files_eq Let_def remove_paths_Nil)
  next
    case False
    then have ne: "?md \<noteq> []" by (auto simp: expired_items_def)
    have r: "\<not> read_fault ?w2 (METADATA_FILE ?w2)"
      using load_nonempty_readable[OF ne]
      by (simp add: remove_paths_keeps load_keeps load_keeps_more)
    have wr: "write_fault ?w2 (METADATA_FILE ?w2) = Write_ok"
      using assms by (simp add: remove_paths_keeps load_keeps load_keeps_more)
    have "fst (load_file_metadata (save_file_metadata (live_items now ?md) ?w2))
          = live_items now ?md"
      by (rule load_save[OF table_ok_live[OF load_table_ok] wr r])
    with False show ?thesis by (simp add: cleanup_old_files_eq Let_def)
  qed
qed

lemma cleanup_world:
  "snd (cleanup_old_files now w) =
     (let metadata = fst (load_file_metadata w);
          w2 = remove_paths (map (\<lambda>(pin, info). filepath info) (expired_items now metadata))
                 (snd (load_file_metadata w))
      in if expired_items now metadata \<noteq> []
         then save_file_metadata (live_items now metadata) w2 else w2)"
  and cleanup_count:
  "fst (cleanup_old_files now w) = length (expired_items now (fst (load_file_metadata w)))"
  by (simp_all add: cleanup_old_files_eq Let_def)

subsection \<open>The example sweeps\<close>

lemma days_before_month_2024:
  "days_before_month 2024 2 = 31" "days_before_month 2024 3 = 60"
  by code_simp+

lemma sweep_ages:
  "age sweep_now old_info = timedelta_hours 25"
  "age sweep_now recent_info = timedelta_hours 23"
  "timedelta_hours 24 < age sweep_now lost_info"
  by (simp_all add: age_def datetime_sub_def microseconds_of_def toordinal_def
      days_before_year_def days_before_month_2024
      timedelta_hours_def sweep_now_def old_info_def recent_info_def lost_info_def)

lemma table_ok_sweep: "table_ok sweep_table"
  by (simp add: table_ok_def sweep_table_def old_info_def recent_info_def lost_info_def
      valid_datetime_def days_in_month_def is_leap_def ascii_def)

lemma load_sweep_world: "fst (load_file_metadata sweep_world) = sweep_table"
  unfolding sweep_world_def
  by (rule load_save[OF table_ok_sweep]) (simp_all add: example_world_def)

lemma sweep_world_fields:
  "METADATA_FILE sweep_world = ascii ''/tmp/streamlit_file_transfer/file_metadata.json''"
  "write_fault sweep_world p = Write_ok"
  "remove_fault sweep_world p = False"
  "files sweep_world (filepath recent_info) = Some (Binary [4])"
  by (simp_all add: sweep_world_def save_keeps save_files example_world_def
      METADATA_FILE_def STORAGE_DIR_def path_join_def ascii_def recent_info_def old_info_def)

lemma sweep_partition:
  "expired_items sweep_now sweep_table = [(ascii ''1111'', old_info), (ascii ''3333'', lost_info)]"
  "live_items sweep_now sweep_table = [(ascii ''2222'', recent_info)]"
  using sweep_ages
  by (simp_all add: expired_items_def live_items_def sweep_table_def timedelta_hours_def)

lemma cleanup_nothing_expired:
  assumes "expired_items now (fst (load_file_metadata w)) = []"
  shows "fst (cleanup_old_files now w) = 0"
    and "files (snd (cleanup_old_files now w)) = files w"
    and "fst (load_file_metadata (snd (cleanup_old_files now w))) = fst (load_file_metadata w)"
proof -
  show "fst (cleanup_old_files now w) = 0" by (simp add: cleanup_count assms)
  have w': "snd (cleanup_old_files now w) = snd (load_file_metadata w)"
    by (simp add: cleanup_world Let_def assms remove_paths_Nil)
  show "files (snd (cleanup_old_files now w)) = files w" by (simp add: w' load_keeps)
  show "fst (load_file_metadata (snd (cleanup_old_files now w))) = fst (load_file_metadata w)"
    unfolding w' by (rule load_cong) (simp_all add: load_keeps)
qed

lemma live_items_not_expired:
  "\<forall>(pin, info) \<in> set (live_items now metadata). \<not> timedelta_hours 24 < age now info"
  by (auto simp: live_items_def)

lemma boundary_ages:
  "age first_reading (example_info) = timedelta_hours 24"
  "age second_reading (example_info) = timedelta_hours 24 + 1"
  by (simp_all add: age_def datetime_sub_def microseconds_of_def toordinal_def
      days_before_year_def days_before_month_2024
      timedelta_hours_def first_reading_def second_reading_def example_info_def
      example_time_def)

lemma table_ok_example: "table_ok example_table"
  by (simp add: table_ok_def example_table_def example_info_def example_time_def
      valid_datetime_def days_in_month_def)

lemma load_boundary_world: "fst (load_file_metadata boundary_world) = example_table"
  unfolding boundary_world_def
  by (rule load_save[OF table_ok_example]) (simp_all add: example_world_def)

section \<open>The PIN check of the download form\<close>

lemma ascii_unicode_digit: "c < 128 \<Longrightarrow> unicode_digit c = ascii_digit c"
  by (auto simp: unicode_digit_def ascii_digit_def)

lemma ascii_digit_unicode: "ascii_digit c \<Longrightarrow> unicode_digit c"
  by (simp add: unicode_digit_def)

lemma isdigit_ascii:
  "list_all (\<lambda>c. c < 128) s \<Longrightarrow> isdigit s = (s \<noteq> [] \<and> list_all ascii_digit s)"
  by (induction s) (auto simp: isdigit_def ascii_unicode_digit)

lemma isdigit_ascii_digits: "s \<noteq> [] \<Longrightarrow> list_all ascii_digit s \<Longrightarrow> isdigit s"
  by (auto simp: isdigit_def list_all_iff ascii_digit_unicode)

section \<open>The environment stays the same\<close>

lemma same_env_refl: "same_env w w"
  by (simp add: same_env_def)

lemma same_env_trans: "same_env w w1 \<Longrightarrow> same_env w1 w2 \<Longrightarrow> same_env w w2"
  by (simp add: same_env_def)

lemma same_env_paths:
  assumes "same_env w w'"
  shows "METADATA_FILE w' = METADATA_FILE w" "STORAGE_DIR w' = STORAGE_DIR w"
  using assms by (simp_all add: same_env_def METADATA_FILE_def STORAGE_DIR_def)

lemma same_env_st: "same_env w (st e w)"
  by (simp add: same_env_def st_def)

lemma same_env_load: "same_env w (snd (load_file_metadata w))"
  by (simp add: same_env_def load_keeps)

lemma same_env_save: "same_env w (save_file_metadata metadata w)"
  by (simp add: same_env_def save_keeps)

lemma st_keeps:
  "files (st e w) = files w" "store_calls (st e w) = store_calls w"
  "screen (st e w) = screen w @ [e]" "random_state (st e w) = random_state w"
  by (simp_all add: st_def)

lemma load_same_files:
  assumes "same_env w w'" and "files w' (METADATA_FILE w) = files w (METADATA_FILE w)"
  shows "read_metadata w' = read_metadata w"
proof -
  have m: "METADATA_FILE w' = METADATA_FILE w" by (rule same_env_paths[OF assms(1)])
  have j: "json_load w' = json_load w"
    using assms(1) unfolding json_load_def same_env_def by simp
  have r: "read_fault w' = read_fault w" using assms(1) by (simp add: same_env_def)
  show ?thesis unfolding read_metadata_def m j r assms(2) ..
qed

lemma load_screen_ok:
  assumes "read_metadata w = Inr d"
  shows "load_file_metadata w = (d, w\<lparr>store_calls := store_calls w @ [Load]\<rparr>)"
  using assms by (simp add: load_file_metadata_eq)

lemma map_of_Some_read_ok:
  assumes "map_of (fst (load_file_metadata w)) pin = Some info"
  shows "read_metadata w = Inr (fst (load_file_metadata w))"
  using assms by (auto simp: fst_load split: sum.splits)

lemma table_ok_delete: "table_ok metadata \<Longrightarrow> table_ok (AList.delete k metadata)"
  unfolding AList.delete_eq by (rule table_ok_filter)

section \<open>Uploads\<close>

lemma table_ok_update:
  assumes "table_ok metadata" and "valid_datetime (upload_time info)"
  shows "table_ok (AList.update k info metadata)"
proof -
  have "list_all P (AList.update k info metadata)"
    if "list_all P metadata" "P (k, info)" for P
    using that by (induction metadata) auto
  with assms show ?thesis
    by (simp add: table_ok_def distinct_update)
qed

lemma path_join_cases:
  "b \<noteq> [] \<Longrightarrow> hd b \<noteq> 47 \<Longrightarrow>
   path_join a b = (if a = [] \<or> last a = 47 then a @ b else a @ 47 # b)"
  by (simp add: path_join_def)

lemma blob_path_not_metadata:
  assumes "pin \<noteq> []" and "ascii_digit (hd pin)"
  shows "path_join (STORAGE_DIR w) (pin @ ascii ''_'' @ nm) \<noteq> METADATA_FILE w"
proof -
  let ?b = "pin @ ascii ''_'' @ nm"
  let ?m = "ascii ''file_metadata.json''"
  from assms have b: "?b \<noteq> []" "hd ?b \<noteq> 47" "hd ?b \<noteq> 102"
    by (auto simp: ascii_digit_def)
  have m: "?m \<noteq> []" "hd ?m \<noteq> 47" "hd ?m = 102" by (simp_all add: ascii_def)
  from b(3) m(3) have "?b \<noteq> ?m" by metis
  then show ?thesis
    unfolding METADATA_FILE_def path_join_cases[OF b(1,2)] path_join_cases[OF m(1,2)]
    by simp
qed

lemma fst_load_nonempty:
  assumes "fst (load_file_metadata w) = d" and "d \<noteq> []"
  shows "read_metadata w = Inr d"
  using assms by (auto simp: fst_load split: sum.splits)

lemma open_write_Inr:
  assumes "open_write p c w = (Inr u, w1)"
  shows "w1 = w\<lparr>files := (files w)(p \<mapsto> c)\<rparr>"
  using assms by (auto simp: open_write_def split: wfault.splits)

lemma save_file_with_pin_Inr:
  assumes "save_file_with_pin file pin now w = (Inr fp, w')"
  defines "p \<equiv> path_join (STORAGE_DIR w) (pin @ ascii ''_'' @ name file)"
  defines "wa \<equiv> w\<lparr>files := (files w)(p \<mapsto> Binary (getvalue file))\<rparr>"
  shows "fp = p"
    and "w' = save_file_metadata
           (AList.update pin
              \<lparr>filename = name file, filepath = p, size_f = size_u file, upload_time = now,
               type_f = type_u file\<rparr> (fst (load_file_metadata wa)))
           (snd (load_file_metadata wa))"
proof -
  obtain r w1 where o: "open_write p (Binary (getvalue file)) w = (r, w1)"
    by (cases "open_write p (Binary (getvalue file)) w")
  with assms(1) obtain u where r: "r = Inr u"
    by (cases r) (auto simp: save_file_with_pin_def Let_def p_def)
  from open_write_Inr[OF o[unfolded r]] have w1: "w1 = wa" by (simp add: wa_def)
  obtain md wb where l: "load_file_metadata wa = (md, wb)"
    by (cases "load_file_metadata wa")
  from assms(1) show "fp = p"
    by (simp add: save_file_with_pin_def Let_def p_def[symmetric] o r w1 l)
  from assms(1) show "w' = save_file_metadata
           (AList.update pin
              \<lparr>filename = name file, filepath = p, size_f = size_u file, upload_time = now,
               type_f = type_u file\<rparr> (fst (load_file_metadata wa)))
           (snd (load_file_metadata wa))"
    by (auto simp add: save_file_with_pin_def Let_def p_def[symmetric] o r w1 l)
qed

lemma fst_load_same_files:
  assumes "same_env w w'" and "files w' (METADATA_FILE w) = files w (METADATA_FILE w)"
  shows "fst (load_file_metadata w') = fst (load_file_metadata w)"
  by (simp add: fst_load load_same_files[OF assms])

lemma upload_one_Uploaded:
  assumes u: "upload_one file now w = Some (Uploaded pin, w')"
    and v: "valid_datetime now"
    and wr: "write_fault w (METADATA_FILE w) = Write_ok"
    and rd: "\<not> read_fault w (METADATA_FILE w)"
  defines "p \<equiv> path_join (STORAGE_DIR w) (pin @ ascii ''_'' @ name file)"
  defines "info \<equiv> \<lparr>filename = name file, filepath = p, size_f = size_u file,
                     upload_time = now, type_f = type_u file\<rparr>"
  shows "length pin = 4 \<and> list_all ascii_digit pin \<and>
         map_of (fst (load_file_metadata w)) pin = None \<and>
         same_env w w' \<and>
         fst (load_file_metadata w') = AList.update pin info (fst (load_file_metadata w)) \<and>
         files w' p = Some (Binary (getvalue file))"
proof -
  from u obtain w1 fp where g: "generate_pin w = Some (pin, w1)"
    and s: "save_file_with_pin file pin now w1 = (Inr fp, w')"
    by (auto simp: upload_one_def split: option.splits prod.splits sum.splits)
  from generate_pin_Some[OF g] obtain j where j: "pin = candidate (random_state w j)"
    "map_of (fst (load_file_metadata w)) pin = None"
    "w1 = (snd (load_file_metadata w))\<lparr>random_state := (\<lambda>i. random_state w (i + Suc j))\<rparr>"
    by blast
  from j(1) candidate_shape[of "random_state w j"]
  have shape: "length pin = 4" "list_all ascii_digit pin" by simp_all
  then have ne: "pin \<noteq> []" and hd: "ascii_digit (hd pin)"
    by (cases pin; simp)+
  have e1: "same_env w w1" using same_env_load[of w] by (simp add: j(3) same_env_def)
  have f1: "files w1 = files w"
    by (simp add: j(3) load_keeps)
  have p1: "path_join (STORAGE_DIR w1) (pin @ ascii ''_'' @ name file) = p"
    by (simp add: p_def same_env_paths[OF e1])
  define wa where "wa = w1\<lparr>files := (files w1)(p \<mapsto> Binary (getvalue file))\<rparr>"
  note sv = save_file_with_pin_Inr[OF s, unfolded p1, folded wa_def info_def]
  have pm: "p \<noteq> METADATA_FILE w" unfolding p_def by (rule blob_path_not_metadata[OF ne hd])
  have ea: "same_env w wa" using e1 by (simp add: wa_def same_env_def)
  have fa: "files wa (METADATA_FILE w) = files w (METADATA_FILE w)"
    using pm by (simp add: wa_def f1)
  have la: "fst (load_file_metadata wa) = fst (load_file_metadata w)"
    by (rule fst_load_same_files[OF ea fa])
  define wb where "wb = snd (load_file_metadata wa)"
  have eb: "same_env w wb"
    unfolding wb_def by (rule same_env_trans[OF ea same_env_load])
  have mb: "METADATA_FILE wb = METADATA_FILE w" by (rule same_env_paths[OF eb])
  have wrb: "write_fault wb (METADATA_FILE wb) = Write_ok"
    unfolding mb using wr eb by (simp add: same_env_def)
  have rdb: "\<not> read_fault wb (METADATA_FILE wb)"
    unfolding mb using rd eb by (simp add: same_env_def)
  have w': "w' = save_file_metadata (AList.update pin info (fst (load_file_metadata w))) wb"
    using sv(2) by (simp add: la wb_def)
  have tk: "table_ok (AList.update pin info (fst (load_file_metadata w)))"
    by (rule table_ok_update[OF load_table_ok]) (simp add: info_def v)
  have l': "fst (load_file_metadata w') = AList.update pin info (fst (load_file_metadata w))"
    unfolding w' by (rule load_save[OF tk wrb rdb])
  have fb: "files wb = files wa" by (simp add: wb_def load_keeps)
  have f': "files w' p = Some (Binary (getvalue file))"
    unfolding w' save_files(1)[OF wrb] mb using pm by (simp add: fb wa_def)
  have e': "same_env w w'"
    unfolding w' by (rule same_env_trans[OF eb same_env_save])
  show ?thesis using shape j(2) e' l' f' by simp
qed

lemma save_file_with_pin_ok:
  assumes "write_fault w (path_join (STORAGE_DIR w) (pin @ ascii ''_'' @ name file)) = Write_ok"
  shows "\<exists>w'. save_file_with_pin file pin now w
           = (Inr (path_join (STORAGE_DIR w) (pin @ ascii ''_'' @ name file)), w')"
  using assms by (simp add: save_file_with_pin_def Let_def open_write_def split: prod.splits)

lemma upload_one_example:
  "\<exists>w'. upload_one example_file example_time example_world
          = Some (Uploaded (ascii ''1000''), w')"
proof -
  let ?w1 = "(snd (load_file_metadata example_world))
               \<lparr>random_state := (\<lambda>j. random_state example_world (j + 1))\<rparr>"
  have r0: "random_state example_world 0 = 0" by (simp add: example_world_def)
  have g: "generate_pin example_world = Some (ascii ''1000'', ?w1)"
    by (subst generate_pin_first) (simp_all add: example_load candidate_0 r0)
  have wf: "write_fault ?w1 p = Write_ok" for p
    by (simp add: load_keeps example_world_def)
  from save_file_with_pin_ok[OF wf] obtain fp w2 where
    "save_file_with_pin example_file (ascii ''1000'') example_time ?w1 = (Inr fp, w2)"
    by blast
  with g show ?thesis by (simp add: upload_one_def)
qed

section \<open>A save that fails\<close>

lemma save_file_metadata_fails:
  assumes "write_fault w (METADATA_FILE w) \<noteq> Write_ok"
  shows "screen (save_file_metadata metadata w) = screen w @ [St_error_saving_metadata OSError]"
    and "files (save_file_metadata metadata w) =
           (case write_fault w (METADATA_FILE w) of
              Write_torn c \<Rightarrow> (files w)(METADATA_FILE w \<mapsto> c)
            | _ \<Rightarrow> files w)"
  using assms
  by (simp_all add: save_file_metadata_def log_call_def open_write_def st_def Let_def
      split: wfault.splits)

lemma denied_world_fields:
  "METADATA_FILE denied_world = ascii ''/tmp/streamlit_file_transfer/file_metadata.json''"
  "write_fault denied_world (ascii ''/tmp/streamlit_file_transfer/file_metadata.json'')
     = Open_denied"
  "path_join (STORAGE_DIR denied_world) (ascii ''1000'' @ ascii ''_'' @ name example_file)
     = ascii ''/tmp/streamlit_file_transfer/1000_report.pdf''"
  "write_fault denied_world (ascii ''/tmp/streamlit_file_transfer/1000_report.pdf'') = Write_ok"
  "files denied_world = Map.empty" "screen denied_world = []"
  by (simp_all add: denied_world_def example_world_def METADATA_FILE_def STORAGE_DIR_def
      path_join_def example_file_def ascii_def)

text \<open>An upload on a fresh store whose snapshot file may not be opened for writing.\<close>

lemma upload_one_save_denied:
  assumes g: "generate_pin w = Some (pin, w1)"
    and a: "write_fault w (METADATA_FILE w) = Open_denied"
    and b: "write_fault w (path_join (STORAGE_DIR w) (pin @ ascii ''_'' @ name file)) = Write_ok"
    and f: "files w (METADATA_FILE w) = None"
  shows "\<exists>w'. upload_one file now w = Some (Uploaded pin, w') \<and>
              fst (load_file_metadata w') = [] \<and>
              last (screen w') = St_error_saving_metadata OSError"
proof -
  define p where "p = path_join (STORAGE_DIR w) (pin @ ascii ''_'' @ name file)"
  from generate_pin_Some[OF g] obtain j where j: "pin = candidate (random_state w j)"
    "w1 = (snd (load_file_metadata w))\<lparr>random_state := (\<lambda>i. random_state w (i + Suc j))\<rparr>"
    by blast
  from j(1) candidate_shape[of "random_state w j"]
  have shape: "length pin = 4" "list_all ascii_digit pin" by simp_all
  then have ne: "pin \<noteq> []" and hd: "ascii_digit (hd pin)"
    by (cases pin; simp)+
  have e1: "same_env w w1" using same_env_load[of w] by (simp add: j(2) same_env_def)
  have f1: "files w1 = files w" by (simp add: j(2) load_keeps)
  have p1: "path_join (STORAGE_DIR w1) (pin @ ascii ''_'' @ name file) = p"
    by (simp add: p_def same_env_paths[OF e1])
  have b1: "write_fault w1 (path_join (STORAGE_DIR w1) (pin @ ascii ''_'' @ name file)) = Write_ok"
    unfolding p1 using b e1 by (simp add: same_env_def p_def)
  from save_file_with_pin_ok[OF b1, of now] obtain w' where
    s: "save_file_with_pin file pin now w1 = (Inr p, w')"
    unfolding p1 by blast
  define wa where "wa = w1\<lparr>files := (files w1)(p \<mapsto> Binary (getvalue file))\<rparr>"
  define wb where "wb = snd (load_file_metadata wa)"
  note sv = save_file_with_pin_Inr(2)[OF s, unfolded p1, folded wa_def, folded wb_def]
  have ea: "same_env w wa" using e1 by (simp add: wa_def same_env_def)
  have eb: "same_env w wb" unfolding wb_def by (rule same_env_trans[OF ea same_env_load])
  have mb: "METADATA_FILE wb = METADATA_FILE w" by (rule same_env_paths[OF eb])
  have ab: "write_fault wb (METADATA_FILE wb) = Open_denied"
    unfolding mb using a eb by (simp add: same_env_def)
  then have ab': "write_fault wb (METADATA_FILE wb) \<noteq> Write_ok" by simp
  have pm: "p \<noteq> METADATA_FILE w" unfolding p_def by (rule blob_path_not_metadata[OF ne hd])
  have fb: "files wb (METADATA_FILE w) = None"
    using pm f by (simp add: wb_def load_keeps wa_def f1)
  have e': "same_env w w'" unfolding sv by (rule same_env_trans[OF eb same_env_save])
  have "files w' = files wb"
    unfolding sv save_file_metadata_fails(2)[OF ab'] by (simp add: ab)
  with fb have "files w' (METADATA_FILE w') = None" by (simp add: same_env_paths[OF e'])
  then have "read_metadata w' = Inr []" by (simp add: read_metadata_def)
  then have l': "fst (load_file_metadata w') = []" by (simp add: fst_load)
  have sc: "last (screen w') = St_error_saving_metadata OSError"
    unfolding sv save_file_metadata_fails(1)[OF ab'] by simp
  have "upload_one file now w = Some (Uploaded pin, w')"
    using g s by (simp add: upload_one_def)
  with l' sc show ?thesis by blast
qed

section \<open>Uploads of several sessions, and of one\<close>

lemma generate_pin_fresh_store:
  assumes "files w (METADATA_FILE w) = None" and "random_state w 0 = 0"
  shows "generate_pin w = Some (ascii ''1000'',
      (snd (load_file_metadata w))\<lparr>random_state := (\<lambda>j. random_state w (j + 1))\<rparr>)"
proof -
  from assms(1) have "read_metadata w = Inr []" by (simp add: read_metadata_def)
  then have "fst (load_file_metadata w) = []" by (simp add: fst_load)
  then show ?thesis
    by (subst generate_pin_first) (simp_all add: assms(2) candidate_0)
qed

lemma same_env_write_fault: "same_env w w' \<Longrightarrow> write_fault w' = write_fault w"
  by (simp add: same_env_def)

lemma same_env_save_file_with_pin:
  "same_env w (snd (save_file_with_pin file pin now w))"
proof -
  have o: "same_env w (snd (open_write p c w))" for p c
    by (simp add: open_write_def same_env_def split: wfault.splits)
  obtain r w1 where ow: "open_write (path_join (STORAGE_DIR w) (pin @ ascii ''_'' @ name file))
      (Binary (getvalue file)) w = (r, w1)"
    by (cases "open_write (path_join (STORAGE_DIR w) (pin @ ascii ''_'' @ name file))
      (Binary (getvalue file)) w")
  from o[of "path_join (STORAGE_DIR w) (pin @ ascii ''_'' @ name file)" "Binary (getvalue file)"] ow
  have e1: "same_env w w1" by simp
  show ?thesis
  proof (cases r)
    case (Inl e)
    with ow e1 show ?thesis by (simp add: save_file_with_pin_def Let_def)
  next
    case (Inr u)
    have "same_env w1 (save_file_metadata m (snd (load_file_metadata w1)))" for m
      by (rule same_env_trans[OF same_env_load same_env_save])
    with Inr ow e1 show ?thesis
      by (auto simp: save_file_with_pin_def Let_def split: prod.splits
          intro: same_env_trans)
  qed
qed

lemma save_file_with_pin_table:
  assumes s: "save_file_with_pin file pin now w = (Inr fp, w')"
    and ne: "pin \<noteq> []" and hd: "ascii_digit (hd pin)"
    and v: "valid_datetime now"
    and wr: "write_fault w (METADATA_FILE w) = Write_ok"
    and rd: "\<not> read_fault w (METADATA_FILE w)"
  shows "fst (load_file_metadata w') =
           AList.update pin
             \<lparr>filename = name file,
              filepath = path_join (STORAGE_DIR w) (pin @ ascii ''_'' @ name file),
              size_f = size_u file, upload_time = now, type_f = type_u file\<rparr>
             (fst (load_file_metadata w))"
proof -
  define p where "p = path_join (STORAGE_DIR w) (pin @ ascii ''_'' @ name file)"
  define info where "info = \<lparr>filename = name file, filepath = p, size_f = size_u file,
                     upload_time = now, type_f = type_u file\<rparr>"
  define wa where "wa = w\<lparr>files := (files w)(p \<mapsto> Binary (getvalue file))\<rparr>"
  define wb where "wb = snd (load_file_metadata wa)"
  note sv = save_file_with_pin_Inr(2)[OF s, folded p_def, folded wa_def info_def, folded wb_def]
  have pm: "p \<noteq> METADATA_FILE w" unfolding p_def by (rule blob_path_not_metadata[OF ne hd])
  have ea: "same_env w wa" by (simp add: wa_def same_env_def)
  have fa: "files wa (METADATA_FILE w) = files w (METADATA_FILE w)"
    using pm by (simp add: wa_def)
  have la: "fst (load_file_metadata wa) = fst (load_file_metadata w)"
    by (rule fst_load_same_files[OF ea fa])
  have eb: "same_env w wb"
    unfolding wb_def by (rule same_env_trans[OF ea same_env_load])
  have mb: "METADATA_FILE wb = METADATA_FILE w" by (rule same_env_paths[OF eb])
  have wrb: "write_fault wb (METADATA_FILE wb) = Write_ok"
    unfolding mb using wr eb by (simp add: same_env_def)
  have rdb: "\<not> read_fault wb (METADATA_FILE wb)"
    unfolding mb using rd eb by (simp add: same_env_def)
  have tk: "table_ok (AList.update pin info (fst (load_file_metadata w)))"
    by (rule table_ok_update[OF load_table_ok]) (simp add: info_def v)
  have "fst (load_file_metadata w') = AList.update pin info (fst (load_file_metadata w))"
    unfolding sv la by (rule load_save[OF tk wrb rdb])
  then show ?thesis by (simp add: info_def p_def)
qed

lemma generated_pin_shape:
  assumes "generate_pin w = Some (pin, w1)"
  shows "pin \<noteq> []" "ascii_digit (hd pin)" "same_env w w1" "files w1 = files w"
proof -
  from generate_pin_Some[OF assms] obtain j where j: "pin = candidate (random_state w j)"
    "w1 = (snd (load_file_metadata w))\<lparr>random_state := (\<lambda>i. random_state w (i + Suc j))\<rparr>"
    by blast
  from j(1) candidate_shape[of "random_state w j"]
  have shape: "length pin = 4" "list_all ascii_digit pin" by simp_all
  then show "pin \<noteq> []" "ascii_digit (hd pin)"
    by (cases pin; simp)+
  show "same_env w w1" using same_env_load[of w] by (simp add: j(2) same_env_def)
  show "files w1 = files w" by (simp add: j(2) load_keeps)
qed

lemma upload_one_Failed:
  assumes "upload_one file now w = Some (Failed e, w')"
  shows "same_env w w' \<and> fst (load_file_metadata w') = fst (load_file_metadata w)"
proof -
  from assms obtain pin w1 e1 where g: "generate_pin w = Some (pin, w1)"
    and s: "save_file_with_pin file pin now w1 = (Inl e1, w')"
    by (auto simp: upload_one_def split: option.splits prod.splits sum.splits)
  note sh = generated_pin_shape[OF g]
  define p where "p = path_join (STORAGE_DIR w1) (pin @ ascii ''_'' @ name file)"
  have pm: "p \<noteq> METADATA_FILE w"
    unfolding p_def same_env_paths[OF sh(3)] by (rule blob_path_not_metadata[OF sh(1,2)])
  from s have "w' = snd (open_write p (Binary (getvalue file)) w1)"
    by (auto simp: save_file_with_pin_def Let_def p_def split: prod.splits sum.splits)
  then have "same_env w1 w'" and "files w' (METADATA_FILE w) = files w1 (METADATA_FILE w)"
    using pm by (auto simp: open_write_def same_env_def split: wfault.splits)
  with sh(3,4) have e: "same_env w w'" and f: "files w' (METADATA_FILE w) = files w (METADATA_FILE w)"
    by (auto intro: same_env_trans)
  from fst_load_same_files[OF e f] e show ?thesis by simp
qed

lemma upload_all_pins:
  assumes "upload_all jobs w = Some (rs, w')"
    and "list_all (\<lambda>(file, now). valid_datetime now) jobs"
    and "write_fault w (METADATA_FILE w) = Write_ok"
    and "\<not> read_fault w (METADATA_FILE w)"
  shows "distinct (uploaded_pins rs) \<and>
         set (uploaded_pins rs) \<inter> fst ` set (fst (load_file_metadata w)) = {} \<and>
         same_env w w' \<and>
         fst ` set (fst (load_file_metadata w'))
           = fst ` set (fst (load_file_metadata w)) \<union> set (uploaded_pins rs)"
  using assms
proof (induction jobs arbitrary: w rs)
  case Nil
  then show ?case by (simp add: same_env_refl)
next
  case (Cons job jobs)
  obtain fl now where job: "job = (fl, now)" by (cases job)
  from Cons.prems(1) obtain r w1 rs' where u: "upload_one fl now w = Some (r, w1)"
    and a: "upload_all jobs w1 = Some (rs', w')" and rs: "rs = r # rs'"
    by (auto simp: job split: option.splits)
  from Cons.prems(2) have v: "valid_datetime now"
    and vs: "list_all (\<lambda>(file, now). valid_datetime now) jobs"
    by (simp_all add: job)
  have c: "same_env w w1 \<and>
           fst ` set (fst (load_file_metadata w1))
             = fst ` set (fst (load_file_metadata w)) \<union> set (uploaded_pins [r]) \<and>
           set (uploaded_pins [r]) \<inter> fst ` set (fst (load_file_metadata w)) = {}"
  proof (cases r)
    case (Uploaded pin)
    note up = upload_one_Uploaded[OF u[unfolded Uploaded] v Cons.prems(3,4)]
    from up have "map_of (fst (load_file_metadata w)) pin = None" by simp
    then have "pin \<notin> fst ` set (fst (load_file_metadata w))"
      by (simp add: map_of_eq_None_iff)
    with up show ?thesis by (simp add: Uploaded dom_update)
  next
    case (Failed e)
    from upload_one_Failed[OF u[unfolded Failed]] show ?thesis by (simp add: Failed)
  qed
  then have e1: "same_env w w1"
    and k1: "fst ` set (fst (load_file_metadata w1))
             = fst ` set (fst (load_file_metadata w)) \<union> set (uploaded_pins [r])"
    and n1: "set (uploaded_pins [r]) \<inter> fst ` set (fst (load_file_metadata w)) = {}"
    by simp_all
  have m1: "METADATA_FILE w1 = METADATA_FILE w" by (rule same_env_paths[OF e1])
  have wr1: "write_fault w1 (METADATA_FILE w1) = Write_ok"
    unfolding m1 using Cons.prems(3) e1 by (simp add: same_env_def)
  have rd1: "\<not> read_fault w1 (METADATA_FILE w1)"
    unfolding m1 using Cons.prems(4) e1 by (simp add: same_env_def)
  from Cons.IH[OF a vs wr1 rd1]
  have ih: "distinct (uploaded_pins rs')"
    "set (uploaded_pins rs') \<inter> fst ` set (fst (load_file_metadata w1)) = {}"
    "same_env w1 w'"
    "fst ` set (fst (load_file_metadata w'))
       = fst ` set (fst (load_file_metadata w1)) \<union> set (uploaded_pins rs')"
    by simp_all
  have up: "uploaded_pins rs = uploaded_pins [r] @ uploaded_pins rs'"
    unfolding rs by (cases r) simp_all
  have d1: "distinct (uploaded_pins [r])" by (cases r) simp_all
  from ih(2) k1 have x: "set (uploaded_pins [r]) \<inter> set (uploaded_pins rs') = {}"
    "set (uploaded_pins rs') \<inter> fst ` set (fst (load_file_metadata w)) = {}"
    by auto
  have "distinct (uploaded_pins rs)" unfolding up using d1 ih(1) x(1) by simp
  moreover have "set (uploaded_pins rs) \<inter> fst ` set (fst (load_file_metadata w)) = {}"
    unfolding up using n1 x(2) by auto
  moreover have "same_env w w'" by (rule same_env_trans[OF e1 ih(3)])
  moreover have "fst ` set (fst (load_file_metadata w'))
           = fst ` set (fst (load_file_metadata w)) \<union> set (uploaded_pins rs)"
    unfolding up ih(4) k1 by auto
  ultimately show ?case by simp
qed

lemma random_state_save_file_with_pin:
  "random_state (snd (save_file_with_pin file pin now w)) = random_state w"
  by (simp add: save_file_with_pin_def Let_def open_write_def save_keeps load_keeps
      split_beta split: wfault.splits)

lemma upload_one_first:
  assumes "map_of (fst (load_file_metadata w)) (candidate (random_state w 0)) = None"
    and "\<And>p. write_fault w p = Write_ok"
  shows "\<exists>w'. upload_one file now w = Some (Uploaded (candidate (random_state w 0)), w') \<and>
              random_state w' = (\<lambda>j. random_state w (j + 1)) \<and> same_env w w'"
proof -
  define w1 where "w1 = (snd (load_file_metadata w))
      \<lparr>random_state := (\<lambda>j. random_state w (j + 1))\<rparr>"
  have g: "generate_pin w = Some (candidate (random_state w 0), w1)"
    unfolding w1_def by (rule generate_pin_first[OF assms(1)])
  have e1: "same_env w w1" using same_env_load[of w] by (simp add: w1_def same_env_def)
  have wf: "write_fault w1 p = Write_ok" for p
    using e1 assms(2) by (simp add: same_env_def)
  from save_file_with_pin_ok[OF wf] obtain w' where
    s: "save_file_with_pin file (candidate (random_state w 0)) now w1
          = (Inr (path_join (STORAGE_DIR w1)
                    (candidate (random_state w 0) @ ascii ''_'' @ name file)), w')"
    by blast
  have u: "upload_one file now w = Some (Uploaded (candidate (random_state w 0)), w')"
    by (simp add: upload_one_def g s)
  have "random_state w' = random_state w1"
    using random_state_save_file_with_pin[of "file" "candidate (random_state w 0)" now w1]
    by (simp add: s)
  then have r: "random_state w' = (\<lambda>j. random_state w (j + 1))" by (simp add: w1_def)
  have "same_env w1 w'"
    using same_env_save_file_with_pin[of w1 "file" "candidate (random_state w 0)" now]
    by (simp add: s)
  with e1 have "same_env w w'" by (rule same_env_trans)
  with u r show ?thesis by blast
qed

lemma candidate_1: "candidate 1 = ascii ''1001''" "candidate (Suc 0) = ascii ''1001''"
  by (simp_all add: candidate_eq str_nat_4 ascii_def)

section \<open>The claims of the specification\<close>

text \<open>
  Claim C1. When the upload of a file succeeds with the PIN \<open>pin\<close> (the bytes are written
  under the blob path, the record is saved under \<open>pin\<close>), the download form given that PIN
  right afterwards finds the record and offers a download button whose data are exactly
  the uploaded bytes. The snapshot file can be written and read and the blob can be read.
\<close>

theorem upload_then_download:
  assumes "upload_one file now w = Some (Uploaded pin, w')"
    and "valid_datetime now"
    and "write_fault w (METADATA_FILE w) = Write_ok"
    and "\<not> read_fault w (METADATA_FILE w)"
    and "\<not> read_fault w (path_join (STORAGE_DIR w) (pin @ ascii ''_'' @ name file))"
  shows "read_file (path_join (STORAGE_DIR w) (pin @ ascii ''_'' @ name file)) w'
           = Inr (getvalue file) \<and>
         screen (download_tab pin w') =
           screen w' @
             [St_success_pin_verified,
              St_metrics \<lparr>filename = name file,
                          filepath = path_join (STORAGE_DIR w) (pin @ ascii ''_'' @ name file),
                          size_f = size_u file, upload_time = now, type_f = type_u file\<rparr>,
              St_download_button (getvalue file) (name file) (type_u file)]"
proof -
  define p where "p = path_join (STORAGE_DIR w) (pin @ ascii ''_'' @ name file)"
  define info where "info = \<lparr>filename = name file, filepath = p, size_f = size_u file,
                     upload_time = now, type_f = type_u file\<rparr>"
  define md where "md = AList.update pin info (fst (load_file_metadata w))"
  note up = upload_one_Uploaded[OF assms(1-4), folded p_def, folded info_def, folded md_def]
  from up have shape: "length pin = 4" "list_all ascii_digit pin" and e: "same_env w w'"
    and l: "fst (load_file_metadata w') = md" and f: "files w' p = Some (Binary (getvalue file))"
    by simp_all
  from shape have ne: "pin \<noteq> []" by auto
  have dig: "isdigit pin" by (rule isdigit_ascii_digits[OF ne shape(2)])
  have m: "map_of md pin = Some info" by (simp add: md_def update_conv)
  then have "md \<noteq> []" by auto
  from fst_load_nonempty[OF l this] have r: "read_metadata w' = Inr md" .
  let ?w1 = "w'\<lparr>store_calls := store_calls w' @ [Load]\<rparr>"
  let ?w2 = "st (St_metrics info) (st St_success_pin_verified ?w1)"
  have g: "get_file_by_pin pin w' = (Some info, ?w1)"
    by (simp add: get_file_by_pin_def load_screen_ok[OF r] m)
  have ex: "os_path_exists (filepath info) ?w1"
    using f by (simp add: os_path_exists_def info_def)
  have rf: "\<not> read_fault w' p" using assms(5) e by (simp add: same_env_def p_def)
  have rd: "read_file p w' = Inr (getvalue file)"
    using f rf by (simp add: read_file_def)
  have rd2: "read_file (filepath info) ?w2 = Inr (getvalue file)"
    using f rf by (simp add: read_file_def info_def st_def)
  have d: "download_tab pin w' =
        st (St_download_button (getvalue file) (filename info) (type_f info)) ?w2"
    using ne shape(1) dig ex
    by (simp add: download_tab_def g Let_def rd2)
  have "screen (download_tab pin w') = screen w' @
      [St_success_pin_verified, St_metrics info,
       St_download_button (getvalue file) (name file) (type_u file)]"
    unfolding d by (simp add: st_def info_def)
  with rd show ?thesis by (simp add: p_def info_def)
qed

text \<open>
  On the empty store the upload of \<open>example_file\<close> gets the PIN 1000, and the download
  form then offers its four bytes.
\<close>

theorem upload_then_download_witness:
  "valid_datetime example_time \<and>
   write_fault example_world (METADATA_FILE example_world) = Write_ok \<and>
   \<not> read_fault example_world (METADATA_FILE example_world) \<and>
   \<not> read_fault example_world
       (path_join (STORAGE_DIR example_world) (ascii ''1000'' @ ascii ''_'' @ name example_file)) \<and>
   (\<exists>w'. upload_one example_file example_time example_world
            = Some (Uploaded (ascii ''1000''), w') \<and>
         read_file (ascii ''/tmp/streamlit_file_transfer/1000_report.pdf'') w'
            = Inr [37, 80, 68, 70] \<and>
         last (screen (download_tab (ascii ''1000'') w'))
            = St_download_button [37, 80, 68, 70] (ascii ''report.pdf'')
                (Some (ascii ''application/pdf'')))"
proof -
  from upload_one_example obtain w' where
    u: "upload_one example_file example_time example_world = Some (Uploaded (ascii ''1000''), w')"
    by blast
  have h: "write_fault example_world (METADATA_FILE example_world) = Write_ok"
    "\<not> read_fault example_world (METADATA_FILE example_world)"
    "\<not> read_fault example_world
       (path_join (STORAGE_DIR example_world) (ascii ''1000'' @ ascii ''_'' @ name example_file))"
    by (simp_all add: example_world_def)
  have p: "path_join (STORAGE_DIR example_world) (ascii ''1000'' @ ascii ''_'' @ name example_file)
           = ascii ''/tmp/streamlit_file_transfer/1000_report.pdf''"
    by (simp add: STORAGE_DIR_def path_join_def example_world_def example_file_def ascii_def)
  have f: "getvalue example_file = [37, 80, 68, 70]" "name example_file = ascii ''report.pdf''"
    "type_u example_file = Some (ascii ''application/pdf'')"
    by (simp_all add: example_file_def)
  note t = upload_then_download[OF u valid_example_time h, unfolded p]
  from t have "read_file (ascii ''/tmp/streamlit_file_transfer/1000_report.pdf'') w'
            = Inr [37, 80, 68, 70]"
    by (simp add: f)
  moreover from t have "last (screen (download_tab (ascii ''1000'') w'))
            = St_download_button [37, 80, 68, 70] (ascii ''report.pdf'')
                (Some (ascii ''application/pdf''))"
    by (simp add: f)
  ultimately show ?thesis using u valid_example_time h by blast
qed



text \<open>
  Claim C3, as amended. \<open>generate_pin\<close> forms every candidate as the decimal numeral of
  \<open>random.randint(1000, 9999)\<close>: one of the 9,000 strings \<open>"1000"\<close> to \<open>"9999"\<close>, four
  ASCII digits with no leading zero, and each of these strings is a possible candidate.
  Whenever it returns, the PIN is such a string, drawn from the random source, and absent
  from the table loaded at call time; and it returns as soon as one draw is absent from
  the table. (How likely each candidate is lies outside the model: the random source is
  the sequence of raw outputs.)
\<close>

theorem generate_pin_candidates_and_result:
  "(\<forall>r. length (candidate r) = 4 \<and> list_all ascii_digit (candidate r) \<and>
        hd (candidate r) \<noteq> 48 \<and>
        (\<exists>n. 1000 \<le> n \<and> n \<le> 9999 \<and> candidate r = str_nat n)) \<and>
   (\<forall>n. 1000 \<le> n \<and> n \<le> 9999 \<longrightarrow> (\<exists>r. candidate r = str_nat n)) \<and>
   (\<forall>pin w'. generate_pin w = Some (pin, w') \<longrightarrow>
        length pin = 4 \<and> list_all ascii_digit pin \<and>
        (\<exists>i. pin = candidate (random_state w i)) \<and>
        map_of (fst (load_file_metadata w)) pin = None) \<and>
   ((\<exists>i. map_of (fst (load_file_metadata w)) (candidate (random_state w i)) = None) \<longrightarrow>
        (\<exists>pin w'. generate_pin w = Some (pin, w')))"
proof (intro conjI allI impI)
  fix r
  show "length (candidate r) = 4" "list_all ascii_digit (candidate r)" "hd (candidate r) \<noteq> 48"
    using candidate_shape[of r] by simp_all
  show "\<exists>n. 1000 \<le> n \<and> n \<le> 9999 \<and> candidate r = str_nat n"
    by (intro exI[of _ "1000 + r mod 9000"]) (simp add: candidate_eq)
next
  fix n :: nat assume "1000 \<le> n \<and> n \<le> 9999"
  then show "\<exists>r. candidate r = str_nat n"
    by (intro exI[of _ "n - 1000"]) (simp add: candidate_onto)
next
  fix pin w' assume "generate_pin w = Some (pin, w')"
  from generate_pin_Some[OF this] obtain j where j: "pin = candidate (random_state w j)"
    "map_of (fst (load_file_metadata w)) pin = None" by blast
  from j(1) candidate_shape[of "random_state w j"]
  show "length pin = 4" "list_all ascii_digit pin" by simp_all
  from j show "\<exists>i. pin = candidate (random_state w i)" by blast
  from j show "map_of (fst (load_file_metadata w)) pin = None" by simp
next
  assume "\<exists>i. map_of (fst (load_file_metadata w)) (candidate (random_state w i)) = None"
  then have "generate_pin w \<noteq> None" by (simp add: generate_pin_None_iff)
  then show "\<exists>pin w'. generate_pin w = Some (pin, w')" by auto
qed

text \<open>On the empty table the first draw, \<open>"1000"\<close> for the raw output 0, is returned.\<close>

theorem generate_pin_candidates_and_result_witness:
  "(\<exists>i. map_of (fst (load_file_metadata example_world))
          (candidate (random_state example_world i)) = None) \<and>
   (\<exists>w'. generate_pin example_world = Some (ascii ''1000'', w')) \<and>
   length (ascii ''1000'') = 4 \<and> list_all ascii_digit (ascii ''1000'') \<and>
   map_of (fst (load_file_metadata example_world)) (ascii ''1000'') = None"
proof -
  have f: "\<exists>i. map_of (fst (load_file_metadata example_world))
          (candidate (random_state example_world i)) = None"
    by (simp add: example_load)
  have r: "random_state example_world 0 = 0" by (simp add: example_world_def)
  have g: "\<exists>w'. generate_pin example_world = Some (ascii ''1000'', w')"
    by (subst generate_pin_first) (simp_all add: example_load r candidate_0)
  with f generate_pin_candidates_and_result[of example_world] show ?thesis
    by auto
qed

text \<open>
  The claim as stated fails: with the PINs \<open>"1000"\<close> to \<open>"9999"\<close> all taken, \<open>"0000"\<close>
  is a free PIN of the 4-digit space, yet no candidate is ever \<open>"0000"\<close> and the allocator
  never returns.
\<close>

theorem generate_pin_full_space_counterexample:
  "map_of (fst (load_file_metadata full_world)) (ascii ''0000'') = None \<and>
   generate_pin full_world = None"
proof
  have "ascii ''0000'' \<notin> fst ` set full_table"
  proof
    assume "ascii ''0000'' \<in> fst ` set full_table"
    then obtain n where n: "1000 \<le> n" "str_nat n = ascii ''0000''"
      by (auto simp: full_table_def simp del: upt_rec_numeral)
    have z: "digits_val (ascii ''0000'') = 0" by (simp add: digits_val_def ascii_def)
    from n(2) have "digits_val (str_nat n) = digits_val (ascii ''0000'')" by simp
    then have "n = 0" by (simp only: digits_val_str_nat z)
    with n(1) show False by simp
  qed
  then show "map_of (fst (load_file_metadata full_world)) (ascii ''0000'') = None"
    by (simp add: load_full_world map_of_eq_None_iff)
  show "generate_pin full_world = None"
    by (simp add: generate_pin_None_iff load_full_world candidate_in_full)
qed

text \<open>
  Claim C4, as amended. \<open>generate_pin\<close> returns exactly when some draw of the random
  source is absent from the table loaded at call time. Its loop has no bound and no error
  exit: when every candidate is present it never returns.
\<close>

theorem generate_pin_terminates_iff:
  "(\<exists>pin w'. generate_pin w = Some (pin, w')) =
   (\<exists>i. map_of (fst (load_file_metadata w)) (candidate (random_state w i)) = None)"
proof -
  have "(\<exists>pin w'. generate_pin w = Some (pin, w')) = (generate_pin w \<noteq> None)" by auto
  then show ?thesis by (simp add: generate_pin_None_iff)
qed

text \<open>
  The claim as stated fails: with all 10,000 PINs \<open>"0000"\<close> to \<open>"9999"\<close> in the table
  the allocator does not terminate (and so reports nothing).
\<close>

theorem generate_pin_exhausted_counterexample:
  "length (fst (load_file_metadata exhausted_world)) = 10000 \<and>
   generate_pin exhausted_world = None"
  by (simp add: generate_pin_None_iff load_exhausted_world candidate_in_exhausted)
     (simp add: exhausted_table_def del: upt_rec_numeral)

text \<open>
  When the uploads run one after another, each \<open>generate_pin\<close> followed by its
  \<open>save_file_with_pin\<close> before the next begins, as in the loop of the upload form, the
  PINs of the uploads that succeed are pairwise different and different from every PIN in
  the table at the start. The snapshot file can be written and read.
\<close>

lemma sequential_uploads_distinct_pins:
  assumes "upload_all jobs w = Some (results, w')"
    and "list_all (\<lambda>(file, now). valid_datetime now) jobs"
    and "write_fault w (METADATA_FILE w) = Write_ok"
    and "\<not> read_fault w (METADATA_FILE w)"
  shows "distinct (uploaded_pins results) \<and>
         set (uploaded_pins results) \<inter> fst ` set (fst (load_file_metadata w)) = {}"
  using upload_all_pins[OF assms] by simp

text \<open>Two files uploaded in a row on the empty store get the PINs 1000 and 1001.\<close>

lemma sequential_uploads_distinct_pins_example:
  "list_all (\<lambda>(file, now). valid_datetime now)
     [(example_file, example_time), (second_file, example_time)] \<and>
   write_fault example_world (METADATA_FILE example_world) = Write_ok \<and>
   \<not> read_fault example_world (METADATA_FILE example_world) \<and>
   map_option fst
     (upload_all [(example_file, example_time), (second_file, example_time)] example_world)
     = Some [Uploaded (ascii ''1000''), Uploaded (ascii ''1001'')] \<and>
   distinct (uploaded_pins [Uploaded (ascii ''1000''), Uploaded (ascii ''1001'')])"
proof -
  let ?jobs = "[(example_file, example_time), (second_file, example_time)]"
  have v: "list_all (\<lambda>(file, now). valid_datetime now) ?jobs"
    by (simp add: valid_example_time)
  have wf: "write_fault example_world p = Write_ok" and rf: "\<not> read_fault example_world p" for p
    by (simp_all add: example_world_def)
  have r0: "random_state example_world = (\<lambda>i. i)" by (simp add: example_world_def)
  have l0: "fst (load_file_metadata example_world) = []" by (simp add: example_load)
  from upload_one_first[of example_world example_file example_time] wf
  obtain w1 where u1: "upload_one example_file example_time example_world
        = Some (Uploaded (ascii ''1000''), w1)"
    and r1: "random_state w1 = (\<lambda>j. j + 1)" and e1: "same_env example_world w1"
    by (auto simp: l0 r0 candidate_0)
  note t1 = upload_one_Uploaded[OF u1 valid_example_time wf rf, unfolded l0]
  have wf1: "write_fault w1 p = Write_ok" for p
    using e1 wf by (simp add: same_env_def)
  have "map_of (fst (load_file_metadata w1)) (candidate (random_state w1 0)) = None"
    using t1 by (simp add: r1 candidate_1 ascii_def)
  from upload_one_first[OF this wf1, of second_file example_time]
  obtain w2 where u2: "upload_one second_file example_time w1
        = Some (Uploaded (ascii ''1001''), w2)"
    by (auto simp: r1 candidate_1)
  have a: "upload_all ?jobs example_world
        = Some ([Uploaded (ascii ''1000''), Uploaded (ascii ''1001'')], w2)"
    by (simp add: u1 u2)
  from sequential_uploads_distinct_pins[OF a v wf rf] a v wf rf
  show ?thesis by simp
qed
text \<open>
  Claim C5. The code at the input where it breaks the claim, and its own comment
  "Ensure PIN is unique" and its own promise "Unique PIN guarantee (no duplicates)": two
  sessions upload at once on the empty store, and the random source gives both the same
  raw output. \<open>generate_pin\<close> checks the table outside \<open>file_lock\<close>, which is held
  only inside \<open>save_file_metadata\<close>, so each session draws its PIN before the other has
  saved: both get the PIN 1000, both uploads report success, and the second save replaces
  the record of the first. The table ends with the one record of \<open>notes.txt\<close> under
  the PIN that the session of \<open>report.pdf\<close> was given too.
\<close>

theorem concurrent_uploads_same_pin:
  "map_option snd
     (run [0, 1, 0, 1]
        (repeat_world, [Ready example_file example_time, Ready second_file example_time]))
     = Some [Done (Uploaded (ascii ''1000'')), Done (Uploaded (ascii ''1000''))] \<and>
   map_option (\<lambda>s. map (\<lambda>(pin, info). (pin, filename info)) (fst (load_file_metadata (fst s))))
     (run [0, 1, 0, 1]
        (repeat_world, [Ready example_file example_time, Ready second_file example_time]))
     = Some [(ascii ''1000'', ascii ''notes.txt'')]"
proof -
  let ?P = "ascii ''1000''"
  let ?t = "example_time"
  define w1 where "w1 = (snd (load_file_metadata repeat_world))
      \<lparr>random_state := (\<lambda>j. random_state repeat_world (j + 1))\<rparr>"
  define w2 where "w2 = (snd (load_file_metadata w1))
      \<lparr>random_state := (\<lambda>j. random_state w1 (j + 1))\<rparr>"
  have f0: "files repeat_world = Map.empty" "random_state repeat_world = (\<lambda>i. 0)"
    "write_fault repeat_world = (\<lambda>p. Write_ok)" "read_fault repeat_world = (\<lambda>p. False)"
    by (simp_all add: repeat_world_def example_world_def)
  have g0: "generate_pin repeat_world = Some (?P, w1)"
    unfolding w1_def by (rule generate_pin_fresh_store) (simp_all add: f0)
  have e1: "same_env repeat_world w1"
    using same_env_load[of repeat_world] by (simp add: w1_def same_env_def)
  have f1: "files w1 = Map.empty" "random_state w1 = (\<lambda>i. 0)"
    by (simp_all add: w1_def load_keeps f0)
  have g1: "generate_pin w1 = Some (?P, w2)"
    unfolding w2_def by (rule generate_pin_fresh_store) (simp_all add: f1)
  have e2: "same_env repeat_world w2"
    using same_env_trans[OF e1 same_env_load[of w1]] by (simp add: w2_def same_env_def)
  have f2: "files w2 = Map.empty" by (simp add: w2_def load_keeps f1)
  have wf2: "write_fault w2 p = Write_ok" for p
    using e2 by (simp add: same_env_def f0)
  from save_file_with_pin_ok[OF wf2] obtain w3 where
    s2: "save_file_with_pin example_file ?P ?t w2
          = (Inr (path_join (STORAGE_DIR w2) (?P @ ascii ''_'' @ name example_file)), w3)"
    by blast
  have e3: "same_env repeat_world w3"
    using same_env_trans[OF e2 same_env_save_file_with_pin[of w2 example_file ?P ?t]]
    by (simp add: s2)
  have wf3: "write_fault w3 p = Write_ok" for p
    using e3 by (simp add: same_env_def f0)
  from save_file_with_pin_ok[OF wf3] obtain w4 where
    s3: "save_file_with_pin second_file ?P ?t w3
          = (Inr (path_join (STORAGE_DIR w3) (?P @ ascii ''_'' @ name second_file)), w4)"
    by blast
  have r: "run [0, 1, 0, 1]
        (repeat_world, [Ready example_file example_time, Ready second_file example_time])
      = Some (w4, [Done (Uploaded ?P), Done (Uploaded ?P)])"
    by (simp add: step_def g0 g1 s2 s3)
  have P: "?P \<noteq> []" "ascii_digit (hd ?P)" by (simp_all add: ascii_def ascii_digit_def)
  have rf: "\<not> read_fault w2 p" "\<not> read_fault w3 p" for p
    using e2 e3 by (simp_all add: same_env_def f0)
  have l2: "fst (load_file_metadata w2) = []"
    by (simp add: fst_load read_metadata_def f2)
  note t3 = save_file_with_pin_table[OF s2 P valid_example_time wf2 rf(1), unfolded l2]
  note t4 = save_file_with_pin_table[OF s3 P valid_example_time wf3 rf(2), unfolded t3]
  have "map (\<lambda>(pin, info). (pin, filename info)) (fst (load_file_metadata w4))
        = [(?P, ascii ''notes.txt'')]"
    unfolding t4 by (simp add: second_file_def)
  with r show ?thesis by simp
qed

text \<open>
  Claim C6, as amended. The PIN field is \<open>st.text_input(..., max_chars=4)\<close>, so the
  input of the download form has at most four characters. For such an input made of ASCII
  characters that is not exactly four ASCII digits, the form never calls the metadata
  store and leaves every file as it is: a non-empty input gets the warning "Please enter a
  valid 4-digit PIN", the empty input gets nothing at all (the form renders no message for
  an empty field).
\<close>

theorem download_tab_malformed:
  assumes "length pin_input \<le> 4"
    and "list_all (\<lambda>c. c < 128) pin_input"
    and "\<not> (length pin_input = 4 \<and> list_all ascii_digit pin_input)"
  shows "download_tab pin_input w = (if pin_input = [] then w else st St_warning_valid_pin w) \<and>
         store_calls (download_tab pin_input w) = store_calls w \<and>
         files (download_tab pin_input w) = files w \<and>
         screen (download_tab pin_input w)
           = screen w @ (if pin_input = [] then [] else [St_warning_valid_pin])"
proof -
  from assms(2,3) have "\<not> (length pin_input = 4 \<and> isdigit pin_input)"
    by (auto simp: isdigit_ascii)
  then have "download_tab pin_input w = (if pin_input = [] then w else st St_warning_valid_pin w)"
    by (auto simp: download_tab_def)
  then show ?thesis by (simp add: st_def)
qed

text \<open>Three malformed inputs that the field can hold: \<open>"12a4"\<close>, \<open>"12"\<close> and \<open>""\<close>.\<close>

theorem download_tab_malformed_witness:
  "length (ascii ''12a4'') \<le> 4 \<and>
   list_all (\<lambda>c. c < 128) (ascii ''12a4'') \<and>
   \<not> (length (ascii ''12a4'') = 4 \<and> list_all ascii_digit (ascii ''12a4'')) \<and>
   download_tab (ascii ''12a4'') example_world = st St_warning_valid_pin example_world \<and>
   download_tab (ascii ''12'') example_world = st St_warning_valid_pin example_world \<and>
   download_tab (ascii '''') example_world = example_world \<and>
   store_calls (download_tab (ascii ''12a4'') example_world) = []"
proof -
  have l: "length (ascii ''12a4'') \<le> 4" "length (ascii ''12'') \<le> 4" "length (ascii '''') \<le> 4"
    by (simp_all add: ascii_def)
  have a: "list_all (\<lambda>c. c < 128) (ascii ''12a4'')" "list_all (\<lambda>c. c < 128) (ascii ''12'')"
    "list_all (\<lambda>c. c < 128) (ascii '''')"
    by (simp_all add: ascii_def)
  have b: "\<not> (length (ascii ''12a4'') = 4 \<and> list_all ascii_digit (ascii ''12a4''))"
    "\<not> (length (ascii ''12'') = 4 \<and> list_all ascii_digit (ascii ''12''))"
    "\<not> (length (ascii '''') = 4 \<and> list_all ascii_digit (ascii ''''))"
    by (simp_all add: ascii_def ascii_digit_def)
  have n: "ascii ''12a4'' \<noteq> []" "ascii ''12'' \<noteq> []" "ascii '''' = []"
    by (simp_all add: ascii_def)
  have t1: "download_tab (ascii ''12a4'') example_world = st St_warning_valid_pin example_world"
    and s1: "store_calls (download_tab (ascii ''12a4'') example_world) = store_calls example_world"
    using download_tab_malformed[OF l(1) a(1) b(1), of example_world] n(1) by (simp_all add: st_def)
  have t2: "download_tab (ascii ''12'') example_world = st St_warning_valid_pin example_world"
    using download_tab_malformed[OF l(2) a(2) b(2), of example_world] n(2) by simp
  have t4: "download_tab (ascii '''') example_world = example_world"
    using download_tab_malformed[OF l(3) a(3) b(3), of example_world] n(3) by simp
  have s0: "store_calls example_world = []" by (simp add: example_world_def)
  from l(1) a(1) b(1) t1 t2 t4 s1 s0 show ?thesis by simp
qed

text \<open>
  The claim as stated fails twice. The empty input is not rejected as InvalidPin: the form
  renders nothing for it. And \<open>str.isdigit\<close> also accepts digits outside ASCII: for the
  four Arabic-Indic digits U+0660 to U+0663, which are not four ASCII digits, the form
  goes on to \<open>get_file_by_pin\<close> and the metadata store is read.
\<close>

theorem download_tab_malformed_counterexample:
  "screen (download_tab [] example_world) = [] \<and>
   \<not> list_all ascii_digit [1632, 1633, 1634, 1635] \<and>
   store_calls (download_tab [1632, 1633, 1634, 1635] example_world) = [Load] \<and>
   screen (download_tab [1632, 1633, 1634, 1635] example_world)
     = [St_error_invalid_or_expired, St_info_check_pin]"
  by (simp add: download_tab_def isdigit_def unicode_digit_def ascii_digit_def
      get_file_by_pin_def example_load st_def)
     (simp add: example_world_def)

text \<open>
  Claim C7. A well-formed PIN whose record is in the table while the file it names is not
  on disk: the form renders "File not found on disk" and no download button, and the
  table found afterwards is the old one without that PIN. The snapshot file can be
  written.
\<close>

theorem download_tab_missing_blob:
  assumes "length pin = 4" and "list_all ascii_digit pin"
    and "map_of (fst (load_file_metadata w)) pin = Some info"
    and "files w (filepath info) = None"
    and "write_fault w (METADATA_FILE w) = Write_ok"
  shows "screen (download_tab pin w)
           = screen w @ [St_error_not_on_disk, St_info_moved_or_deleted] \<and>
         fst (load_file_metadata (download_tab pin w))
           = AList.delete pin (fst (load_file_metadata w)) \<and>
         map_of (fst (load_file_metadata (download_tab pin w))) pin = None"
proof -
  define md where "md = fst (load_file_metadata w)"
  let ?w1 = "w\<lparr>store_calls := store_calls w @ [Load]\<rparr>"
  let ?w2 = "st St_info_moved_or_deleted (st St_error_not_on_disk ?w1)"
  let ?w3 = "?w2\<lparr>store_calls := store_calls ?w2 @ [Load]\<rparr>"
  from assms(1) have ne: "pin \<noteq> []" by auto
  have dig: "isdigit pin" by (rule isdigit_ascii_digits[OF ne assms(2)])
  have m: "map_of md pin = Some info" using assms(3) by (simp add: md_def)
  have r: "read_metadata w = Inr md"
    unfolding md_def by (rule map_of_Some_read_ok[OF assms(3)])
  have l1: "load_file_metadata w = (md, ?w1)" by (rule load_screen_ok[OF r])
  have e2: "same_env w ?w2" by (simp add: same_env_def st_def)
  have "read_metadata ?w2 = read_metadata w"
    by (rule load_same_files[OF e2]) (simp add: st_def)
  with r have r2: "read_metadata ?w2 = Inr md" by simp
  have l2: "load_file_metadata ?w2 = (md, ?w3)" by (rule load_screen_ok[OF r2])
  have nf: "\<not> os_path_exists (filepath info) ?w1"
    using assms(4) by (simp add: os_path_exists_def)
  have g: "get_file_by_pin pin w = (Some info, ?w1)"
    by (simp add: get_file_by_pin_def l1 m)
  have d: "download_tab pin w = save_file_metadata (AList.delete pin md) ?w3"
    using ne dig assms(1) nf m
    by (simp add: download_tab_def g Let_def l2)
  have e3: "same_env w ?w3" by (simp add: same_env_def st_def)
  have m3: "METADATA_FILE ?w3 = METADATA_FILE w" by (rule same_env_paths[OF e3])
  have wr: "write_fault ?w3 (METADATA_FILE ?w3) = Write_ok"
    unfolding m3 using assms(5) by (simp add: st_def)
  from assms(3) have "fst (load_file_metadata w) \<noteq> []" by auto
  from load_nonempty_readable[OF this]
  have rd: "\<not> read_fault ?w3 (METADATA_FILE ?w3)"
    unfolding m3 by (simp add: st_def)
  have s: "screen (download_tab pin w)
           = screen w @ [St_error_not_on_disk, St_info_moved_or_deleted]"
    unfolding d save_files(2)[OF wr] by (simp add: st_def)
  have t: "table_ok md" unfolding md_def by (rule load_table_ok)
  have l: "fst (load_file_metadata (download_tab pin w)) = AList.delete pin md"
    unfolding d by (rule load_save[OF table_ok_delete[OF t] wr rd])
  have "map_of (AList.delete pin md) pin = None"
    by (simp add: delete_conv)
  with s l show ?thesis by (simp add: md_def)
qed

text \<open>In \<open>sweep_world\<close> the record of PIN 3333 names a file that is not there.\<close>

theorem download_tab_missing_blob_witness:
  "length (ascii ''3333'') = 4 \<and> list_all ascii_digit (ascii ''3333'') \<and>
   map_of (fst (load_file_metadata sweep_world)) (ascii ''3333'') = Some lost_info \<and>
   files sweep_world (filepath lost_info) = None \<and>
   write_fault sweep_world (METADATA_FILE sweep_world) = Write_ok \<and>
   screen (download_tab (ascii ''3333'') sweep_world)
     = [St_error_not_on_disk, St_info_moved_or_deleted] \<and>
   fst (load_file_metadata (download_tab (ascii ''3333'') sweep_world))
     = [(ascii ''1111'', old_info), (ascii ''2222'', recent_info)]"
proof -
  have a: "length (ascii ''3333'') = 4" "list_all ascii_digit (ascii ''3333'')"
    by (simp_all add: ascii_def ascii_digit_def)
  have b: "map_of (fst (load_file_metadata sweep_world)) (ascii ''3333'') = Some lost_info"
    by (simp add: load_sweep_world sweep_table_def ascii_def)
  have c: "files sweep_world (filepath lost_info) = None"
    by (simp add: sweep_world_def save_files example_world_def
      METADATA_FILE_def STORAGE_DIR_def path_join_def ascii_def recent_info_def old_info_def
      lost_info_def)
  have d: "write_fault sweep_world (METADATA_FILE sweep_world) = Write_ok"
    by (rule sweep_world_fields)
  have s: "screen sweep_world = []"
    by (simp add: sweep_world_def save_files example_world_def)
  have e: "AList.delete (ascii ''3333'') sweep_table
           = [(ascii ''1111'', old_info), (ascii ''2222'', recent_info)]"
    by (simp add: sweep_table_def AList.delete_eq ascii_def)
  from download_tab_missing_blob[OF a b c d] a b c d show ?thesis
    by (simp add: s load_sweep_world e)
qed

text \<open>
  Claim C8. Saving a table and loading it again gives the table back, record by record,
  so every \<open>upload_time\<close> read is exactly the one saved: \<open>isoformat\<close> writes all
  seven fields of a naive datetime and \<open>fromisoformat\<close> reads them back. The table is
  a Python value (\<open>table_ok\<close>), and the snapshot file can be written and read.
\<close>

theorem save_then_load_roundtrip:
  assumes "table_ok metadata"
    and "write_fault w (METADATA_FILE w) = Write_ok"
    and "\<not> read_fault w (METADATA_FILE w)"
  shows "fst (load_file_metadata (save_file_metadata metadata w)) = metadata"
  by (rule load_save[OF assms])

theorem save_then_load_roundtrip_witness:
  "table_ok example_table \<and>
   write_fault example_world (METADATA_FILE example_world) = Write_ok \<and>
   \<not> read_fault example_world (METADATA_FILE example_world) \<and>
   fst (load_file_metadata (save_file_metadata example_table example_world)) = example_table"
proof -
  have t: "table_ok example_table"
    by (simp add: table_ok_def example_table_def example_info_def example_time_def
        valid_datetime_def days_in_month_def)
  have w: "write_fault example_world (METADATA_FILE example_world) = Write_ok"
    by (simp add: example_world_def)
  have r: "\<not> read_fault example_world (METADATA_FILE example_world)"
    by (simp add: example_world_def)
  from save_then_load_roundtrip[OF t w r] t w r show ?thesis by simp
qed

text \<open>
  Claim C9, as amended. When the snapshot file cannot be written, \<open>save_file_metadata\<close>
  catches the exception, renders "Error saving metadata" and returns as it does after a
  successful save (it returns nothing in either case): the failure does not crash the
  script and is shown on the page, but it is not reported to the caller. The caller goes
  on: \<open>save_file_with_pin\<close> still returns the path of the blob it wrote. The snapshot
  file is left as it was when it could not be opened, and as the failed write left it
  otherwise.
\<close>

theorem save_file_metadata_failure_is_rendered:
  assumes "write_fault w (METADATA_FILE w) \<noteq> Write_ok"
    and "write_fault w (path_join (STORAGE_DIR w) (pin @ ascii ''_'' @ name file)) = Write_ok"
  shows "screen (save_file_metadata metadata w)
           = screen w @ [St_error_saving_metadata OSError] \<and>
         files (save_file_metadata metadata w) =
           (case write_fault w (METADATA_FILE w) of
              Write_torn c \<Rightarrow> (files w)(METADATA_FILE w \<mapsto> c)
            | _ \<Rightarrow> files w) \<and>
         fst (save_file_with_pin file pin now w)
           = Inr (path_join (STORAGE_DIR w) (pin @ ascii ''_'' @ name file)) \<and>
         last (screen (snd (save_file_with_pin file pin now w)))
           = St_error_saving_metadata OSError"
proof -
  let ?p = "path_join (STORAGE_DIR w) (pin @ ascii ''_'' @ name file)"
  let ?wa = "w\<lparr>files := (files w)(?p \<mapsto> Binary (getvalue file))\<rparr>"
  obtain w' where s: "save_file_with_pin file pin now w = (Inr ?p, w')"
    using save_file_with_pin_ok[OF assms(2)] by blast
  note sv = save_file_with_pin_Inr[OF s]
  let ?wb = "snd (load_file_metadata ?wa)"
  have e: "same_env w ?wb"
    by (rule same_env_trans[OF _ same_env_load]) (simp add: same_env_def)
  have "write_fault ?wb (METADATA_FILE ?wb) \<noteq> Write_ok"
    using assms(1) e by (simp add: same_env_paths[OF e] same_env_def)
  from save_file_metadata_fails(1)[OF this] sv(2)
  have "last (screen w') = St_error_saving_metadata OSError" by simp
  with s save_file_metadata_fails[OF assms(1), of metadata] show ?thesis by simp
qed

text \<open>With the snapshot file write-protected, the save renders the error and the upload goes on.\<close>

theorem save_file_metadata_failure_is_rendered_witness:
  "write_fault denied_world (METADATA_FILE denied_world) \<noteq> Write_ok \<and>
   write_fault denied_world
     (path_join (STORAGE_DIR denied_world) (ascii ''1000'' @ ascii ''_'' @ name example_file))
     = Write_ok \<and>
   screen (save_file_metadata example_table denied_world) = [St_error_saving_metadata OSError] \<and>
   files (save_file_metadata example_table denied_world) = Map.empty \<and>
   fst (save_file_with_pin example_file (ascii ''1000'') example_time denied_world)
     = Inr (ascii ''/tmp/streamlit_file_transfer/1000_report.pdf'')"
proof -
  have a: "write_fault denied_world (METADATA_FILE denied_world) \<noteq> Write_ok"
    by (simp add: denied_world_fields)
  have b: "write_fault denied_world
     (path_join (STORAGE_DIR denied_world) (ascii ''1000'' @ ascii ''_'' @ name example_file))
     = Write_ok"
    by (simp add: denied_world_fields)
  from save_file_metadata_failure_is_rendered[OF a b, of example_table example_time] a b
  show ?thesis by (simp add: denied_world_fields)
qed

text \<open>
  The claim as stated fails: with the snapshot file write-protected, the upload of
  \<open>example_file\<close> ends as a success with the PIN 1000, although no record was stored
  (the table loaded afterwards is empty). The caller was told nothing; the error is only
  on the page.
\<close>

theorem save_file_metadata_failure_counterexample:
  "map_option fst (upload_one example_file example_time denied_world)
     = Some (Uploaded (ascii ''1000'')) \<and>
   map_option (\<lambda>r. fst (load_file_metadata (snd r)))
     (upload_one example_file example_time denied_world) = Some [] \<and>
   map_option (\<lambda>r. last (screen (snd r)))
     (upload_one example_file example_time denied_world)
     = Some (St_error_saving_metadata OSError)"
proof -
  have l: "fst (load_file_metadata denied_world) = []"
    by (simp add: fst_load read_metadata_def denied_world_fields)
  have r0: "random_state denied_world 0 = 0" by (simp add: denied_world_def example_world_def)
  have g: "generate_pin denied_world = Some (ascii ''1000'',
      (snd (load_file_metadata denied_world))
               \<lparr>random_state := (\<lambda>j. random_state denied_world (j + 1))\<rparr>)"
    by (subst generate_pin_first) (simp_all add: l candidate_0 r0)
  have a: "write_fault denied_world (METADATA_FILE denied_world) = Open_denied"
    by (simp add: denied_world_fields)
  have b: "write_fault denied_world
     (path_join (STORAGE_DIR denied_world) (ascii ''1000'' @ ascii ''_'' @ name example_file))
     = Write_ok"
    by (simp add: denied_world_fields)
  have f: "files denied_world (METADATA_FILE denied_world) = None"
    by (simp add: denied_world_fields)
  from upload_one_save_denied[OF g a b f, of example_time] show ?thesis by auto
qed

text \<open>
  Claim C10, as amended. Two sweeps in a row, at the clock readings \<open>now\<close> and \<open>now2\<close>,
  with nothing else touching the store: the first removes the records expired at \<open>now\<close>,
  and the second removes nothing and leaves every file as it is, provided that no record
  the first sweep kept has passed the 24-hour window at \<open>now2\<close> (as when both sweeps
  read the same time) and the snapshot file can be written.
\<close>

theorem cleanup_old_files_twice:
  assumes "write_fault w (METADATA_FILE w) = Write_ok"
    and "\<forall>(pin, info) \<in> set (live_items now (fst (load_file_metadata w))).
           \<not> timedelta_hours 24 < age now2 info"
  shows
    "let w' = snd (cleanup_old_files now w);
         w'' = snd (cleanup_old_files now2 w')
     in fst (cleanup_old_files now w) = length (expired_items now (fst (load_file_metadata w))) \<and>
        fst (cleanup_old_files now2 w') = 0 \<and>
        fst (load_file_metadata w'') = live_items now (fst (load_file_metadata w)) \<and>
        files w'' = files w'"
proof -
  let ?w' = "snd (cleanup_old_files now w)"
  have l: "fst (load_file_metadata ?w') = live_items now (fst (load_file_metadata w))"
    by (rule load_after_cleanup[OF assms(1)])
  have e: "expired_items now2 (fst (load_file_metadata ?w')) = []"
    unfolding l expired_items_def using assms(2) by (auto simp: filter_empty_conv)
  from cleanup_nothing_expired[OF e] l show ?thesis
    by (simp add: Let_def cleanup_count)
qed

text \<open>Both sweeps at the same reading: the second returns 0.\<close>

theorem cleanup_old_files_twice_witness:
  "write_fault sweep_world (METADATA_FILE sweep_world) = Write_ok \<and>
   list_all (\<lambda>(pin, info). \<not> timedelta_hours 24 < age sweep_now info)
     (live_items sweep_now (fst (load_file_metadata sweep_world))) \<and>
   fst (cleanup_old_files sweep_now sweep_world) = 2 \<and>
   fst (cleanup_old_files sweep_now (snd (cleanup_old_files sweep_now sweep_world))) = 0 \<and>
   fst (load_file_metadata
         (snd (cleanup_old_files sweep_now (snd (cleanup_old_files sweep_now sweep_world)))))
     = [(ascii ''2222'', recent_info)]"
proof -
  have w: "write_fault sweep_world (METADATA_FILE sweep_world) = Write_ok"
    by (rule sweep_world_fields)
  have h: "\<forall>(pin, info) \<in> set (live_items sweep_now (fst (load_file_metadata sweep_world))).
           \<not> timedelta_hours 24 < age sweep_now info"
    by (rule live_items_not_expired)
  from cleanup_old_files_twice[OF w h] w h show ?thesis
    by (simp add: Let_def load_sweep_world sweep_partition list_all_iff)
qed

text \<open>
  The claim as stated fails: each sweep reads \<open>datetime.now()\<close> anew. A record exactly
  24 hours old at the first sweep is kept (its age does not exceed the window) and is
  removed by the second sweep one microsecond later.
\<close>

theorem cleanup_old_files_twice_counterexample:
  "fst (cleanup_old_files first_reading boundary_world) = 0 \<and>
   fst (cleanup_old_files second_reading
          (snd (cleanup_old_files first_reading boundary_world))) = 1"
proof -
  have e1: "expired_items first_reading example_table = []"
    by (simp add: expired_items_def example_table_def boundary_ages)
  have e2: "expired_items second_reading example_table = example_table"
    by (simp add: expired_items_def example_table_def boundary_ages)
  have a: "expired_items first_reading (fst (load_file_metadata boundary_world)) = []"
    by (simp add: load_boundary_world e1)
  from cleanup_nothing_expired[OF a]
  have "fst (cleanup_old_files first_reading boundary_world) = 0"
    and "fst (load_file_metadata (snd (cleanup_old_files first_reading boundary_world)))
         = example_table"
    by (simp_all add: load_boundary_world)
  then show ?thesis
    by (simp add: cleanup_count e2) (simp add: example_table_def)
qed

end
